theory Spec2Isabelle
  imports
    Main
    "HOL-Library.AList"
    "HOL-Library.Char_ord"
    "HOL-Library.List_Lexorder"
    "HOL-Library.Multiset"
begin

section \<open>The ksonnet-gen emitter: data model\<close>

text \<open>
  The development embeds \<^verbatim>\<open>ksonnet-gen/ksonnet/emit.go\<close> together with the indent
  writer and the emit visitor of the same package. Go maps are association lists read
  with \<open>map_of\<close> and written with \<open>AList.update\<close>; the order of a list that stands for an
  input map is the order in which one run of the program happens to iterate over it.
  Strings are byte lists, compared as Go compares strings.
\<close>

subsection \<open>Failures\<close>

text \<open>
  \<open>Panic\<close> is a Go panic with its message (a call of \<^verbatim>\<open>log.Panic\<close> or
  \<^verbatim>\<open>log.Panicf\<close>, or one raised by the Go library), \<open>NilPointer\<close> the runtime panic of dereferencing a nil pointer. A function whose
  recursion may not end takes fuel and answers \<open>None\<close> when the fuel is used up.
\<close>

datatype error = Panic string | NilPointer

type_synonym 'a result = "error + 'a"

definition sq :: string where
  "sq = [CHR 0x27]"

subsection \<open>The packages kubespec, kubeversion and jsonnet\<close>

text \<open>
  The three packages are imported by the emitter and are not part of it. Their types
  are given as the emitter uses them, their functions are the fields of \<open>env\<close>.
\<close>

record parsedDefinitionName =
  Group :: "string option"
  Version :: "string option"
  Kind :: string

record Items =
  Items_Ref :: "string option"

record Property =
  Property_Description :: string
  Property_Type :: "string option"
  Property_Items :: Items
  Property_Ref :: "string option"

record TopLevelSpec =
  TopLevelSpec_Group :: string
  TopLevelSpec_Version :: string
  TopLevelSpec_Kind :: string

record SchemaDefinition =
  Description :: string
  Properties :: "(string \<times> Property) list"
  TopLevelSpecs :: "TopLevelSpec list"

record APISpec =
  Info_Version :: string
  Definitions :: "(string \<times> SchemaDefinition) list"

record CustomConstructorParam =
  ID :: string
  DefaultValue :: "string option"
  RelativePath :: "string option"

record CustomConstructorSpec =
  Spec_ID :: string
  Params :: "CustomConstructorParam list"

record env =
  Parse :: "string \<Rightarrow> parsedDefinitionName"
  Unparse :: "parsedDefinitionName \<Rightarrow> string"
  Name :: "string \<Rightarrow> string"
  IsMixinRef :: "string \<Rightarrow> bool"
  isSpecialProperty :: "string \<Rightarrow> bool"
  IsBlacklistedProperty :: "string \<Rightarrow> string \<Rightarrow> string \<Rightarrow> bool"
  RewriteAsIdentifier :: "string \<Rightarrow> string \<Rightarrow> string"
  RewriteAsFuncParam :: "string \<Rightarrow> string \<Rightarrow> string"
  RewriteAsFieldKey :: "string \<Rightarrow> string"
  ToSetterID :: "string \<Rightarrow> string"
  ToMixinID :: "string \<Rightarrow> string"
  KSource :: "string \<Rightarrow> string"
  ConstructorSpec :: "string \<Rightarrow> string \<Rightarrow> CustomConstructorSpec list option"
  constructorName :: string
  specialPropertiesList :: "string list"

text \<open>
  Modelled from the spec: \<^verbatim>\<open>isMixinRef\<close> is called by the emitter and defined outside
  the files at hand. The spec speaks of a reference that is mixin-eligible, so a property
  without a reference is not one; whether a reference that is present is eligible is left
  to \<open>IsMixinRef\<close>.
\<close>

definition isMixinRef :: "env \<Rightarrow> string option \<Rightarrow> bool" where
  "isMixinRef E r = (case r of None \<Rightarrow> False | Some x \<Rightarrow> IsMixinRef E x)"

text \<open>
  \<^verbatim>\<open>strings.TrimSuffix\<close> and \<^verbatim>\<open>strings.Split\<close> of the Go library, the latter for a
  separator of one byte: \<^verbatim>\<open>newComments\<close> splits at the line feed.
\<close>

definition TrimSuffix :: "string \<Rightarrow> string \<Rightarrow> string" where
  "TrimSuffix s suffix =
     (if length suffix \<le> length s \<and> drop (length s - length suffix) s = suffix
      then take (length s - length suffix) s else s)"

fun splitChar :: "char \<Rightarrow> string \<Rightarrow> string \<Rightarrow> string list" where
  "splitChar sep acc [] = [rev acc]"
| "splitChar sep acc (c # cs) =
     (if c = sep then rev acc # splitChar sep [] cs else splitChar sep (c # acc) cs)"

definition newComments :: "string \<Rightarrow> string list" where
  "newComments t = splitChar (CHR 0x0A) [] t"

subsection \<open>The model tree\<close>

text \<open>
  A node of the tree is a Go pointer; here it is the place where the node is stored: the
  tree it belongs to, then the keys of the maps that lead to it. A parent pointer is the
  address of the parent.
\<close>

datatype treeId = visibleTree | hiddenTree

type_synonym groupAddr = "treeId \<times> string"
type_synonym versionedAddr = "treeId \<times> string \<times> string"
type_synonym objAddr = "treeId \<times> string \<times> string \<times> string"
type_synonym propAddr = "objAddr \<times> string"

datatype propertyKind = methodKind | typeAlias

record property =
  kind :: propertyKind
  ref :: "string option"
  schemaType :: "string option"
  itemTypes :: Items
  name :: string
  path :: string
  comments :: "string list"
  parent :: objAddr
  parentMixinName :: string

record constructor =
  specName :: string

record apiObject =
  ao_name :: string
  properties :: "(string \<times> property) list"
  parsedName :: parsedDefinitionName
  ao_comments :: "string list"
  ao_parent :: versionedAddr
  isTopLevel :: bool
  constructors :: "constructor list"

record versionedAPI =
  version :: string
  apiObjects :: "(string \<times> apiObject) list"
  va_parent :: groupAddr

record group =
  g_name :: string
  qualifiedName :: string
  versionedAPIs :: "(string \<times> versionedAPI) list"

record root =
  spec :: APISpec
  groups :: "(string \<times> group) list"
  hiddenGroups :: "(string \<times> group) list"
  ksonnetLibSHA :: "string option"
  k8sSHA :: "string option"

definition groupSetOf :: "root \<Rightarrow> treeId \<Rightarrow> (string \<times> group) list" where
  "groupSetOf r t = (case t of visibleTree \<Rightarrow> groups r | hiddenTree \<Rightarrow> hiddenGroups r)"

definition lookupGroup :: "root \<Rightarrow> groupAddr \<Rightarrow> group option" where
  "lookupGroup r a = (case a of (t, g) \<Rightarrow> map_of (groupSetOf r t) g)"

definition lookupVersioned :: "root \<Rightarrow> versionedAddr \<Rightarrow> versionedAPI option" where
  "lookupVersioned r a =
     (case a of (t, g, v) \<Rightarrow>
        (case lookupGroup r (t, g) of None \<Rightarrow> None
         | Some gr \<Rightarrow> map_of (versionedAPIs gr) v))"

definition lookupObject :: "root \<Rightarrow> objAddr \<Rightarrow> apiObject option" where
  "lookupObject r a =
     (case a of (t, g, v, k) \<Rightarrow>
        (case lookupVersioned r (t, g, v) of None \<Rightarrow> None
         | Some va \<Rightarrow> map_of (apiObjects va) k))"

definition lookupProperty :: "root \<Rightarrow> propAddr \<Rightarrow> property option" where
  "lookupProperty r a =
     (case a of (oa, n) \<Rightarrow>
        (case lookupObject r oa of None \<Rightarrow> None
         | Some ao \<Rightarrow> map_of (properties ao) n))"

subsection \<open>Sorted slices\<close>

text \<open>
  \<^verbatim>\<open>toSortedSlice\<close> collects the values of a map and sorts them with \<^verbatim>\<open>sort.Slice\<close>
  under \<open><\<close> on the name. The keys of each map are the names of its values, so no two
  elements compare equal and every sorting algorithm gives the same slice; the model
  sorts with \<open>sort_key\<close>.
\<close>

definition groupSet_toSortedSlice :: "(string \<times> group) list \<Rightarrow> (string \<times> group) list" where
  "groupSet_toSortedSlice gs = sort_key (\<lambda>kg. g_name (snd kg)) gs"

definition versionedAPISet_toSortedSlice ::
  "(string \<times> versionedAPI) list \<Rightarrow> (string \<times> versionedAPI) list" where
  "versionedAPISet_toSortedSlice vas = sort_key (\<lambda>kv. version (snd kv)) vas"

definition apiObjectSet_toSortedSlice ::
  "(string \<times> apiObject) list \<Rightarrow> (string \<times> apiObject) list" where
  "apiObjectSet_toSortedSlice aos = sort_key (\<lambda>ko. ao_name (snd ko)) aos"

text \<open>
  The body of the loop of \<^verbatim>\<open>sortAndFilterBlacklisted\<close>: \<open>skipped\<close> holds where the loop
  reaches \<^verbatim>\<open>continue\<close>. The blacklist is asked under the name without the alias suffix,
  and a property with a reference is asked for the version of the referenced path.
\<close>

definition blacklistName :: "property \<Rightarrow> string" where
  "blacklistName pm =
     (if kind pm = typeAlias then TrimSuffix (name pm) ''Type'' else name pm)"

definition refWithoutVersion :: "env \<Rightarrow> property \<Rightarrow> bool" where
  "refWithoutVersion E pm =
     (case ref pm of None \<Rightarrow> False
      | Some r \<Rightarrow> Version (Parse E (Name E r)) = None)"

definition skipped :: "env \<Rightarrow> string \<Rightarrow> property \<Rightarrow> bool" where
  "skipped E k8sVersion pm =
     (if IsBlacklistedProperty E k8sVersion (path pm) (blacklistName pm) then True
      else refWithoutVersion E pm)"

definition sortAndFilterBlacklisted ::
  "env \<Rightarrow> string \<Rightarrow> (string \<times> property) list \<Rightarrow> (string \<times> property) list" where
  "sortAndFilterBlacklisted E k8sVersion aos =
     sort_key (\<lambda>kp. name (snd kp)) (filter (\<lambda>kp. \<not> skipped E k8sVersion (snd kp)) aos)"

subsection \<open>Looking an object up\<close>

definition groupNameOf :: "parsedDefinitionName \<Rightarrow> string" where
  "groupNameOf pn = (case Group pn of None \<Rightarrow> ''core'' | Some g \<Rightarrow> g)"

text \<open>
  \<^verbatim>\<open>getAPIObjectHelper\<close> panics, returns an error text, or returns the pointer to the
  object. With \<open>hidden\<close> false it reads \<^verbatim>\<open>root.hiddenGroups\<close>, with \<open>hidden\<close> true
  \<^verbatim>\<open>root.groups\<close>, as the source does.
\<close>

definition getAPIObjectHelper ::
  "env \<Rightarrow> root \<Rightarrow> parsedDefinitionName \<Rightarrow> bool \<Rightarrow> (string + objAddr) result" where
  "getAPIObjectHelper E r pn hidden =
     (case Version pn of
        None \<Rightarrow> Inl (Panic (''Can't get API object with nil version: '' @ sq @ Unparse E pn @ sq))
      | Some v \<Rightarrow>
          (let groupName = groupNameOf pn;
               t = (if hidden then visibleTree else hiddenTree)
           in case map_of (groupSetOf r t) groupName of
                None \<Rightarrow> Inr (Inl (''Could not retrieve object, group in path '' @ sq
                                   @ Unparse E pn @ sq @ '' doesn't exist''))
              | Some gr \<Rightarrow>
                  (case map_of (versionedAPIs gr) v of
                     None \<Rightarrow> Inr (Inl (''Could not retrieve object, versioned API in path '' @ sq
                                        @ Unparse E pn @ sq @ '' doesn't exist''))
                   | Some va \<Rightarrow>
                       (case map_of (apiObjects va) (Kind pn) of
                          Some ao \<Rightarrow> Inr (Inr (t, groupName, v, Kind pn))
                        | None \<Rightarrow> Inr (Inl (''Could not retrieve object, kind in path '' @ sq
                                             @ Unparse E pn @ sq @ '' doesn't exist''))))))"

definition getAPIObject :: "env \<Rightarrow> root \<Rightarrow> parsedDefinitionName \<Rightarrow> objAddr result" where
  "getAPIObject E r pn =
     (case getAPIObjectHelper E r pn False of
        Inl e \<Rightarrow> Inl e
      | Inr (Inr ao) \<Rightarrow> Inr ao
      | Inr (Inl err1) \<Rightarrow>
          (case getAPIObjectHelper E r pn True of
             Inl e \<Rightarrow> Inl e
           | Inr (Inr ao) \<Rightarrow> Inr ao
           | Inr (Inl err) \<Rightarrow> Inl (Panic err)))"

section \<open>Building the tree\<close>

definition newGroup :: "string \<Rightarrow> string \<Rightarrow> group" where
  "newGroup nm qn = \<lparr>g_name = nm, qualifiedName = qn, versionedAPIs = []\<rparr>"

definition newVersionedAPI :: "string \<Rightarrow> groupAddr \<Rightarrow> versionedAPI" where
  "newVersionedAPI v p = \<lparr>version = v, apiObjects = [], va_parent = p\<rparr>"

text \<open>
  The struct of the source has no field \<^verbatim>\<open>constructors\<close>, which the visitor reads;
  \<^verbatim>\<open>newAPIObject\<close> fills none, so the field is the empty slice.
\<close>

definition newAPIObject ::
  "parsedDefinitionName \<Rightarrow> versionedAddr \<Rightarrow> SchemaDefinition \<Rightarrow> apiObject" where
  "newAPIObject pn p def =
     \<lparr>ao_name = Kind pn, properties = [], parsedName = pn,
      ao_comments = newComments (Description def), ao_parent = p,
      isTopLevel = (0 < length (TopLevelSpecs def)), constructors = []\<rparr>"

definition newPropertyMethod :: "string \<Rightarrow> string \<Rightarrow> Property \<Rightarrow> objAddr \<Rightarrow> property" where
  "newPropertyMethod nm pth prop p =
     \<lparr>kind = methodKind, ref = Property_Ref prop, schemaType = Property_Type prop,
      itemTypes = Property_Items prop, name = nm, path = pth,
      comments = newComments (Property_Description prop), parent = p,
      parentMixinName = []\<rparr>"

definition newPropertyTypeAlias :: "string \<Rightarrow> string \<Rightarrow> Property \<Rightarrow> objAddr \<Rightarrow> property" where
  "newPropertyTypeAlias nm pth prop p =
     \<lparr>kind = typeAlias, ref = Property_Ref prop, schemaType = Property_Type prop,
      itemTypes = Property_Items prop, name = nm, path = pth,
      comments = newComments (Property_Description prop), parent = p,
      parentMixinName = []\<rparr>"

definition setGroupSet :: "root \<Rightarrow> treeId \<Rightarrow> (string \<times> group) list \<Rightarrow> root" where
  "setGroupSet r t gs =
     (case t of visibleTree \<Rightarrow> r\<lparr>groups := gs\<rparr> | hiddenTree \<Rightarrow> r\<lparr>hiddenGroups := gs\<rparr>)"

text \<open>A write through a pointer to an object, and through a pointer to a property.\<close>

definition updObject :: "objAddr \<Rightarrow> (apiObject \<Rightarrow> apiObject) \<Rightarrow> root \<Rightarrow> root" where
  "updObject a f r =
     (case a of (t, g, v, k) \<Rightarrow>
        setGroupSet r t
          (AList.map_entry g
             (\<lambda>gr. gr\<lparr>versionedAPIs :=
                AList.map_entry v
                  (\<lambda>va. va\<lparr>apiObjects := AList.map_entry k f (apiObjects va)\<rparr>)
                  (versionedAPIs gr)\<rparr>)
             (groupSetOf r t)))"

definition updProperty :: "propAddr \<Rightarrow> (property \<Rightarrow> property) \<Rightarrow> root \<Rightarrow> root" where
  "updProperty a f r =
     (case a of (oa, n) \<Rightarrow>
        updObject oa (\<lambda>ao. ao\<lparr>properties := AList.map_entry n f (properties ao)\<rparr>) r)"

definition createAPIObject ::
  "env \<Rightarrow> root \<Rightarrow> parsedDefinitionName \<Rightarrow> SchemaDefinition \<Rightarrow> (root \<times> objAddr) result" where
  "createAPIObject E r pn def =
     (case Version pn of
        None \<Rightarrow> Inl (Panic (''Can't make API object from name with nil version in path: ''
                            @ sq @ Unparse E pn @ sq))
      | Some v \<Rightarrow>
          (let groupName = groupNameOf pn;
               qualifiedName =
                 (case TopLevelSpecs def of
                    [] \<Rightarrow> groupName
                  | s # _ \<Rightarrow> if TopLevelSpec_Group s \<noteq> [] then TopLevelSpec_Group s
                             else groupName);
               t = (if 0 < length (TopLevelSpecs def) then visibleTree else hiddenTree);
               gs = groupSetOf r t;
               gr = (case map_of gs groupName of
                       None \<Rightarrow> newGroup groupName qualifiedName
                     | Some g \<Rightarrow> g);
               va = (case map_of (versionedAPIs gr) v of
                       None \<Rightarrow> newVersionedAPI v (t, groupName)
                     | Some x \<Rightarrow> x)
           in case map_of (apiObjects va) (Kind pn) of
                Some _ \<Rightarrow> Inl (Panic (''Duplicate object kinds with name '' @ sq
                                       @ Unparse E pn @ sq))
              | None \<Rightarrow>
                  (let ao = newAPIObject pn (t, groupName, v) def;
                       va' = va\<lparr>apiObjects := AList.update (Kind pn) ao (apiObjects va)\<rparr>;
                       gr' = gr\<lparr>versionedAPIs := AList.update v va' (versionedAPIs gr)\<rparr>
                   in Inr (setGroupSet r t (AList.update groupName gr' gs),
                           (t, groupName, v, Kind pn)))))"

text \<open>
  The loop of \<^verbatim>\<open>addDefinition\<close> over \<^verbatim>\<open>def.Properties\<close>, on the property map of the
  object just created: the list is the order in which the run iterates over the map.
\<close>

fun addProperties ::
  "env \<Rightarrow> string \<Rightarrow> objAddr \<Rightarrow> (string \<times> Property) list \<Rightarrow> (string \<times> property) list
   \<Rightarrow> (string \<times> property) list result" where
  "addProperties E pth a [] props = Inr props"
| "addProperties E pth a ((propName, prop) # rest) props =
     (let pm = newPropertyMethod propName pth prop a;
          props1 = AList.update propName pm props;
          st = Property_Type prop
      in if isMixinRef E (ref pm) \<or> (st = Some ''array'' \<and> Items_Ref (Property_Items prop) \<noteq> None)
         then (let typeAliasName = propName @ ''Type'' in
               if (case map_of props1 typeAliasName of None \<Rightarrow> False
                   | Some ta \<Rightarrow> kind ta \<noteq> typeAlias)
               then Inl (Panic (''Can't create type alias '' @ sq @ typeAliasName @ sq
                                @ '' because a property with that name already exists''))
               else addProperties E pth a rest
                      (AList.update typeAliasName
                         (newPropertyTypeAlias typeAliasName pth prop a) props1))
         else addProperties E pth a rest props1)"

definition addDefinition :: "env \<Rightarrow> root \<Rightarrow> string \<Rightarrow> SchemaDefinition \<Rightarrow> root result" where
  "addDefinition E r pth def =
     (let parsedName' = Parse E pth in
      if Version parsedName' = None then Inr r
      else (case createAPIObject E r parsedName' def of
              Inl e \<Rightarrow> Inl e
            | Inr (r1, a) \<Rightarrow>
                (case addProperties E pth a (Properties def) [] of
                   Inl e \<Rightarrow> Inl e
                 | Inr props \<Rightarrow> Inr (updObject a (\<lambda>ao. ao\<lparr>properties := props\<rparr>) r1))))"

fun addDefinitions :: "env \<Rightarrow> root \<Rightarrow> (string \<times> SchemaDefinition) list \<Rightarrow> root result" where
  "addDefinitions E r [] = Inr r"
| "addDefinitions E r ((defName, def) # ds) =
     (case addDefinition E r defName def of
        Inl e \<Rightarrow> Inl e
      | Inr r' \<Rightarrow> addDefinitions E r' ds)"

definition newRoot :: "env \<Rightarrow> APISpec \<Rightarrow> string option \<Rightarrow> string option \<Rightarrow> root result" where
  "newRoot E sp libSHA kSHA =
     addDefinitions E
       \<lparr>spec = sp, groups = [], hiddenGroups = [], ksonnetLibSHA = libSHA, k8sSHA = kSHA\<rparr>
       (Definitions sp)"

section \<open>The indent writer\<close>

record indentedLine =
  line_depth :: int
  line_text :: string

record indentWriter =
  depth :: int
  lines :: "indentedLine list"

text \<open>
  Modelled from the spec: \<^verbatim>\<open>newIndentWriter\<close> is called by \<^verbatim>\<open>Emit\<close> and not defined
  in the files at hand; the spec's line buffer maintains a current nesting depth and a
  sequence of records, which a new writer starts at depth zero and empty.
\<close>

definition newIndentWriter :: indentWriter where
  "newIndentWriter = \<lparr>depth = 0, lines = []\<rparr>"

definition writeLine :: "indentWriter \<Rightarrow> string \<Rightarrow> indentWriter" where
  "writeLine i t = i\<lparr>lines := lines i @ [\<lparr>line_depth = depth i, line_text = t\<rparr>]\<rparr>"

definition insert_writer :: "indentWriter \<Rightarrow> indentWriter \<Rightarrow> indentWriter" where
  "insert_writer i other =
     i\<lparr>lines := lines i
          @ map (\<lambda>l. \<lparr>line_depth = line_depth l + depth i, line_text = line_text l\<rparr>)
              (lines other)\<rparr>"

definition indent :: "indentWriter \<Rightarrow> indentWriter" where
  "indent i = i\<lparr>depth := depth i + 1\<rparr>"

definition dedent :: "indentWriter \<Rightarrow> indentWriter" where
  "dedent i = i\<lparr>depth := depth i - 1\<rparr>"

text \<open>\<^verbatim>\<open>strings.Repeat\<close> panics when the count is negative.\<close>

definition Repeat :: "string \<Rightarrow> int \<Rightarrow> string result" where
  "Repeat s n =
     (if n < 0 then Inl (Panic ''strings: negative Repeat count'')
      else Inr (concat (replicate (nat n) s)))"

fun write_lines :: "indentedLine list \<Rightarrow> string \<Rightarrow> string result" where
  "write_lines [] buffer = Inr buffer"
| "write_lines (l # ls) buffer =
     (case Repeat ''  '' (line_depth l) of
        Inl e \<Rightarrow> Inl e
      | Inr prefix \<Rightarrow> write_lines ls (buffer @ prefix @ line_text l @ [CHR 0x0A]))"

definition write_to :: "indentWriter \<Rightarrow> string \<Rightarrow> string result" where
  "write_to i buffer = write_lines (lines i) buffer"

text \<open>
  Modelled from the spec: \<^verbatim>\<open>bufferWriteLine\<close> and \<^verbatim>\<open>bytes\<close> are called on the indent
  writer by the visitor and by \<^verbatim>\<open>Emit\<close> and are not defined in the files at hand. The
  spec renders a record as the indentation unit repeated depth times, then the text, then
  a line terminator; \<open>bufferWriteLine\<close> appends one line rendered so, at the writer's
  current depth, to a byte buffer, and \<open>bytes\<close> is the rendering of the writer's records.
\<close>

definition bufferWriteLine :: "indentWriter \<Rightarrow> string \<Rightarrow> string \<Rightarrow> string" where
  "bufferWriteLine i buffer t =
     buffer @ concat (replicate (nat (depth i)) ''  '') @ t @ [CHR 0x0A]"

definition bytes :: "indentWriter \<Rightarrow> string result" where
  "bytes i = write_to i []"

section \<open>The emit visitor\<close>

text \<open>
  The key of a buffer is the pointer to the node it was rendered from. The fields of the
  visitor (\<open>m\<close>, \<open>e_groups\<close>, \<open>e_hiddenGroups\<close>, \<open>buffers\<close>) are held together with the
  tree the pointers lead into and with what has been written to the log.
\<close>

datatype node =
    versionedNode versionedAddr
  | objectNode objAddr
  | objectComments objAddr
  | constructorNode objAddr nat
  | propertyNode propAddr
  | propertyComments propAddr

record state =
  tree :: root
  m :: indentWriter
  e_groups :: string
  e_hiddenGroups :: string
  buffers :: "(node \<times> string) list"
  logged :: "string list"

record refMixinAPIObject =
  rm_apiObject :: apiObject
  rm_addr :: objAddr
  rm_prop :: propAddr
  rm_parentMixinName :: string

definition newEmitVisitor :: "root \<Rightarrow> indentWriter \<Rightarrow> state" where
  "newEmitVisitor r iw =
     \<lparr>tree = r, m = iw, e_groups = [], e_hiddenGroups = [], buffers = [], logged = []\<rparr>"

definition k8sVersionOf :: "state \<Rightarrow> string" where
  "k8sVersionOf st = Info_Version (spec (tree st))"

text \<open>
  \<^verbatim>\<open>buffer.Write(e.buffers[n].Bytes())\<close> for each node of a list; a node without a
  buffer is a nil pointer.
\<close>

fun writeBuffers :: "(node \<times> string) list \<Rightarrow> node list \<Rightarrow> string \<Rightarrow> string result" where
  "writeBuffers bs [] buffer = Inr buffer"
| "writeBuffers bs (n # ns) buffer =
     (case map_of bs n of
        None \<Rightarrow> Inl NilPointer
      | Some b \<Rightarrow> writeBuffers bs ns (buffer @ b))"

definition commentLine :: "string \<Rightarrow> string" where
  "commentLine c = (if c = [] then ''//'' else ''// '' @ c)"

definition visitComments :: "string list \<Rightarrow> node \<Rightarrow> state \<Rightarrow> state" where
  "visitComments cs n st =
     st\<lparr>buffers :=
          AList.update n
            (foldl (\<lambda>buffer c. bufferWriteLine (m st) buffer (commentLine c)) [] cs)
            (buffers st)\<rparr>"

text \<open>
  In \<^verbatim>\<open>visitRoot\<close> both stamp lines stand under the test of \<^verbatim>\<open>root.ksonnetLibSHA\<close>, and
  the second dereferences \<^verbatim>\<open>root.k8sSHA\<close>. The call \<^verbatim>\<open>e.m.write(e.groups)\<close> hands the
  visitor's buffer to \<open>write_to\<close> (the writer's \<^verbatim>\<open>write\<close>), which renders the writer's lines into that buffer and
  leaves the writer as it is.
\<close>

definition visitRoot :: "state \<Rightarrow> state result" where
  "visitRoot st =
     (let r = tree st;
          m1 = writeLine (m st)
                 ''// AUTOGENERATED from the Kubernetes OpenAPI specification. DO NOT MODIFY.'';
          m2 = writeLine m1 (''// Kubernetes version: '' @ Info_Version (spec r));
          m3 = (case ksonnetLibSHA r of
                  None \<Rightarrow> m2
                | Some s \<Rightarrow> writeLine m2 (''// SHA of ksonnet-lib HEAD: '' @ s))
      in case (case ksonnetLibSHA r of
                 None \<Rightarrow> Inr m3
               | Some _ \<Rightarrow>
                   (case k8sSHA r of
                      None \<Rightarrow> Inl NilPointer
                    | Some k \<Rightarrow>
                        Inr (writeLine m3
                               (''// SHA of Kubernetes HEAD OpenAPI spec is generated from: ''
                                @ k)))) of
           Inl err \<Rightarrow> Inl err
         | Inr m4 \<Rightarrow>
             (let m5 = writeLine m4 [];
                  m6 = indent (writeLine m5 ''{'')
              in case write_to m6 (e_groups st) of
                   Inl err \<Rightarrow> Inl err
                 | Inr g' \<Rightarrow>
                     (let m7 = indent (writeLine m6 ''local hidden = {'')
                      in case write_to m7 (e_hiddenGroups st) of
                           Inl err \<Rightarrow> Inl err
                         | Inr hg' \<Rightarrow>
                             (let m8 = writeLine (dedent m7) ''},'';
                                  m9 = writeLine (dedent m8) ''}''
                              in Inr (st\<lparr>m := m9, e_groups := g', e_hiddenGroups := hg'\<rparr>)))))"

definition visitGroup :: "env \<Rightarrow> groupAddr \<Rightarrow> bool \<Rightarrow> state \<Rightarrow> state result" where
  "visitGroup E ga hidden st =
     (case lookupGroup (tree st) ga of
        None \<Rightarrow> Inl NilPointer
      | Some gr \<Rightarrow>
          (let mixinName = RewriteAsIdentifier E (k8sVersionOf st) (g_name gr);
               buffer0 = (if hidden then e_hiddenGroups st else e_groups st);
               buffer1 = bufferWriteLine (m st) buffer0 (mixinName @ '':: {'');
               m1 = indent (m st)
           in case writeBuffers (buffers st)
                     (map (\<lambda>kv. versionedNode (fst ga, snd ga, fst kv))
                        (versionedAPISet_toSortedSlice (versionedAPIs gr)))
                     buffer1 of
                Inl err \<Rightarrow> Inl err
              | Inr buffer2 \<Rightarrow>
                  (let m2 = dedent m1;
                       buffer3 = bufferWriteLine m2 buffer2 ''},''
                   in Inr (if hidden then st\<lparr>m := m2, e_hiddenGroups := buffer3\<rparr>
                           else st\<lparr>m := m2, e_groups := buffer3\<rparr>))))"

definition apiVersionLine :: "string \<Rightarrow> string \<Rightarrow> string" where
  "apiVersionLine gn v =
     (if gn = ''core'' then ''local apiVersion = {apiVersion: \"'' @ v @ ''\"},''
      else ''local apiVersion = {apiVersion: \"'' @ gn @ ''/'' @ v @ ''\"},'')"

definition visitVersionedAPI :: "env \<Rightarrow> versionedAddr \<Rightarrow> state \<Rightarrow> state result" where
  "visitVersionedAPI E a st =
     (case lookupVersioned (tree st) a of
        None \<Rightarrow> Inl NilPointer
      | Some va \<Rightarrow>
          (let buffer1 = bufferWriteLine (m st) [] (version va @ '':: {'');
               m1 = indent (m st)
           in case lookupGroup (tree st) (va_parent va) of
                None \<Rightarrow> Inl NilPointer
              | Some gr \<Rightarrow>
                  (let buffer2 = bufferWriteLine m1 buffer1
                                   (apiVersionLine (qualifiedName gr) (version va))
                   in case writeBuffers (buffers st)
                             (map (\<lambda>ko. objectNode (fst a, fst (snd a), snd (snd a), fst ko))
                                (apiObjectSet_toSortedSlice (apiObjects va)))
                             buffer2 of
                        Inl err \<Rightarrow> Inl err
                      | Inr buffer3 \<Rightarrow>
                          (let m2 = dedent m1;
                               buffer4 = bufferWriteLine m2 buffer3 ''},''
                           in Inr (st\<lparr>m := m2,
                                       buffers := AList.update (versionedNode a) buffer4
                                                    (buffers st)\<rparr>)))))"

definition visitAPIObject :: "env \<Rightarrow> objAddr \<Rightarrow> state \<Rightarrow> state result" where
  "visitAPIObject E a st =
     (case lookupObject (tree st) a of
        None \<Rightarrow> Inl NilPointer
      | Some ao \<Rightarrow>
          (let jsonnetName = RewriteAsIdentifier E (k8sVersionOf st) (ao_name ao);
               pms = sortAndFilterBlacklisted E (k8sVersionOf st) (properties ao)
           in case writeBuffers (buffers st) [objectComments a] [] of
                Inl err \<Rightarrow> Inl err
              | Inr buffer0 \<Rightarrow>
                  (let buffer1 = bufferWriteLine (m st) buffer0 (jsonnetName @ '':: {'');
                       m1 = indent (m st);
                       buffer2 = (if isTopLevel ao
                                  then bufferWriteLine m1 buffer1
                                         (''local kind = {kind: \"'' @ ao_name ao @ ''\"},'')
                                  else buffer1)
                   in case writeBuffers (buffers st)
                             (map (constructorNode a) [0..<length (constructors ao)])
                             buffer2 of
                        Inl err \<Rightarrow> Inl err
                      | Inr buffer3 \<Rightarrow>
                          (case writeBuffers (buffers st)
                                  (map (\<lambda>kp. propertyNode (a, fst kp))
                                     (filter (\<lambda>kp. \<not> (isSpecialProperty E (name (snd kp))
                                                       \<or> isMixinRef E (ref (snd kp))))
                                        pms))
                                  buffer3 of
                             Inl err \<Rightarrow> Inl err
                           | Inr buffer4 \<Rightarrow>
                               (let buffer5 = bufferWriteLine m1 buffer4 ''mixin:: {'';
                                    m2 = indent m1
                                in case writeBuffers (buffers st)
                                          (map (\<lambda>kp. propertyNode (a, fst kp))
                                             (filter (\<lambda>kp. isMixinRef E (ref (snd kp))) pms))
                                          buffer5 of
                                     Inl err \<Rightarrow> Inl err
                                   | Inr buffer6 \<Rightarrow>
                                       (let m3 = dedent m2;
                                            buffer7 = bufferWriteLine m3 buffer6 ''},'';
                                            m4 = dedent m3;
                                            buffer8 = bufferWriteLine m4 buffer7 ''},''
                                        in Inr (st\<lparr>m := m4,
                                                    buffers := AList.update (objectNode a) buffer8
                                                                 (buffers st)\<rparr>)))))))"

text \<open>
  \<^verbatim>\<open>visitRefMixinAPIObject\<close> stores the pointer to its buffer under the property
  before it writes, so where the loop meets that same property the buffer found in the
  map is the one being written.
\<close>

fun writeKnownBuffers ::
  "(node \<times> string) list \<Rightarrow> node \<Rightarrow> node list \<Rightarrow> string \<Rightarrow> string" where
  "writeKnownBuffers bs own [] buffer = buffer"
| "writeKnownBuffers bs own (n # ns) buffer =
     (if n = own then writeKnownBuffers bs own ns (buffer @ buffer)
      else (case map_of bs n of
              None \<Rightarrow> writeKnownBuffers bs own ns buffer
            | Some pbuffer \<Rightarrow> writeKnownBuffers bs own ns (buffer @ pbuffer)))"

definition mixinText ::
  "string \<Rightarrow> string \<Rightarrow> string \<Rightarrow> string \<Rightarrow> string" where
  "mixinText mixinName paramName fieldName parentName =
     (if parentName = []
      then ''local '' @ mixinName @ ''('' @ paramName @ '') = {'' @ fieldName @ ''+: ''
           @ paramName @ ''},''
      else ''local '' @ mixinName @ ''('' @ paramName @ '') = '' @ parentName @ ''({''
           @ fieldName @ ''+: '' @ paramName @ ''}),'')"

definition lowercaseClash :: "string \<Rightarrow> string \<Rightarrow> string" where
  "lowercaseClash functionName v =
     ''Tried to lowercase first character of object kind '' @ sq @ functionName @ sq
     @ '', but lowercase name was already present in version '' @ sq @ v @ sq"

definition visitRefMixinAPIObject :: "env \<Rightarrow> refMixinAPIObject \<Rightarrow> state \<Rightarrow> state result" where
  "visitRefMixinAPIObject E rmao st =
     (case lookupProperty (tree st) (rm_prop rmao) of
        None \<Rightarrow> Inl NilPointer
      | Some p \<Rightarrow>
          (let functionName = RewriteAsIdentifier E (k8sVersionOf st) (name p);
               paramName = RewriteAsFuncParam E (k8sVersionOf st) (name p);
               fieldName = RewriteAsFieldKey E (name p);
               mixinName = ''__'' @ functionName @ ''Mixin''
           in case lookupVersioned (tree st) (ao_parent (rm_apiObject rmao)) of
                None \<Rightarrow> Inl NilPointer
              | Some va \<Rightarrow>
                  if map_of (apiObjects va) functionName \<noteq> None
                  then Inl (Panic (lowercaseClash functionName (version va)))
                  else (case lookupObject (tree st) (rm_addr rmao) of
                          None \<Rightarrow> Inl NilPointer
                        | Some ao \<Rightarrow>
                            (let buffer1 = bufferWriteLine (m st) [] (functionName @ '':: {'');
                                 m1 = indent (m st);
                                 buffer2 = bufferWriteLine m1 buffer1
                                             (mixinText mixinName paramName fieldName
                                                (rm_parentMixinName rmao));
                                 buffer3 = bufferWriteLine m1 buffer2
                                             (''mixinInstance('' @ paramName @ ''):: '' @ mixinName
                                              @ ''('' @ paramName @ ''),'');
                                 buffer4 = writeKnownBuffers (buffers st)
                                             (propertyNode (rm_prop rmao))
                                             (map (\<lambda>kp. propertyNode (rm_addr rmao, fst kp))
                                                (sortAndFilterBlacklisted E (k8sVersionOf st)
                                                   (properties ao)))
                                             buffer3;
                                 m2 = dedent m1;
                                 buffer5 = bufferWriteLine m2 buffer4 ''},''
                             in Inr (st\<lparr>m := m2,
                                         buffers := AList.update (propertyNode (rm_prop rmao))
                                                      buffer5 (buffers st)\<rparr>)))))"

text \<open>The body of \<^verbatim>\<open>visitProperty\<close> is commented out in the source but for the buffer.\<close>

definition visitProperty :: "propAddr \<Rightarrow> state \<Rightarrow> state result" where
  "visitProperty pa st = Inr (st\<lparr>buffers := AList.update (propertyNode pa) [] (buffers st)\<rparr>)"

text \<open>
  The path a type alias names: that of the reference, else that of the item type; the
  source dereferences \<^verbatim>\<open>p.itemTypes.Ref\<close> without a test.
\<close>

definition aliasPath :: "env \<Rightarrow> property \<Rightarrow> string result" where
  "aliasPath E p =
     (case ref p of
        Some r \<Rightarrow> Inr (Name E r)
      | None \<Rightarrow>
          (case Items_Ref (itemTypes p) of
             Some r \<Rightarrow> Inr (Name E r)
           | None \<Rightarrow> Inl NilPointer))"

definition aliasLine :: "env \<Rightarrow> string \<Rightarrow> property \<Rightarrow> parsedDefinitionName \<Rightarrow> string \<Rightarrow> string" where
  "aliasLine E k8sVersion p parsedPath v =
     (let trimmedName = TrimSuffix (name p) ''Type'';
          typeName = RewriteAsIdentifier E k8sVersion trimmedName @ ''Type'';
          gr = groupNameOf parsedPath;
          ident = RewriteAsIdentifier E k8sVersion (Kind parsedPath)
      in typeName @ '':: hidden.'' @ gr @ ''.'' @ v @ ''.'' @ ident @ '','')"

definition visitTypeAlias :: "env \<Rightarrow> propAddr \<Rightarrow> state \<Rightarrow> state result" where
  "visitTypeAlias E pa st =
     (case lookupProperty (tree st) pa of
        None \<Rightarrow> Inl NilPointer
      | Some p \<Rightarrow>
          (let st1 = st\<lparr>buffers := AList.update (propertyNode pa) [] (buffers st)\<rparr>
           in case aliasPath E p of
                Inl err \<Rightarrow> Inl err
              | Inr pth \<Rightarrow>
                  (case Version (Parse E pth) of
                     None \<Rightarrow>
                       Inr (st1\<lparr>logged := logged st1
                                  @ [''Could not emit type alias for '' @ sq @ pth @ sq
                                     @ [CHR 0x0A]]\<rparr>)
                   | Some v \<Rightarrow>
                       Inr (st1\<lparr>buffers :=
                                  AList.update (propertyNode pa)
                                    (bufferWriteLine (m st) []
                                       (aliasLine E (k8sVersionOf st) p (Parse E pth) v))
                                    (buffers st)\<rparr>))))"

definition visitRefProperty :: "env \<Rightarrow> propAddr \<Rightarrow> state \<Rightarrow> state result" where
  "visitRefProperty E pa st =
     (case lookupProperty (tree st) pa of
        None \<Rightarrow> Inl NilPointer
      | Some p \<Rightarrow>
          (let setterFunctionName =
                 ToSetterID E (RewriteAsIdentifier E (k8sVersionOf st) (name p));
               fieldName = RewriteAsFieldKey E (name p);
               paramName = RewriteAsFuncParam E (k8sVersionOf st) (name p);
               setterSignature = setterFunctionName @ ''('' @ paramName @ '')::'';
               body = (if parentMixinName p = []
                       then ''{'' @ fieldName @ '': '' @ paramName @ ''}''
                       else parentMixinName p @ ''({'' @ fieldName @ '': '' @ paramName @ ''})'');
               line = setterSignature @ '' '' @ body @ '',''
           in Inr (st\<lparr>buffers := AList.update (propertyNode pa)
                                     (bufferWriteLine (m st) [] line) (buffers st)\<rparr>)))"

section \<open>Accepting a visitor\<close>

fun forEach :: "('a \<Rightarrow> 's \<Rightarrow> 's result option) \<Rightarrow> 'a list \<Rightarrow> 's \<Rightarrow> 's result option" where
  "forEach f [] st = Some (Inr st)"
| "forEach f (x # xs) st =
     (case f x st of
        None \<Rightarrow> None
      | Some (Inl err) \<Rightarrow> Some (Inl err)
      | Some (Inr st') \<Rightarrow> forEach f xs st')"

text \<open>
  \<^verbatim>\<open>property.accept\<close> and \<^verbatim>\<open>refMixinAPIObject.accept\<close> call each other for as long as
  references lead on; the fuel bounds the depth of that nesting. The loop of
  \<^verbatim>\<open>refMixinAPIObject.accept\<close> assigns \<^verbatim>\<open>rmao.parentMixinName\<close> to the property it is
  about to visit, through the pointer held in the property map of the referenced object.
\<close>

function (sequential) property_accept :: "nat \<Rightarrow> env \<Rightarrow> propAddr \<Rightarrow> state \<Rightarrow> state result option"
and refMixinAPIObject_accept ::
  "nat \<Rightarrow> env \<Rightarrow> refMixinAPIObject \<Rightarrow> state \<Rightarrow> state result option"
and refMixinAPIObject_loop ::
  "nat \<Rightarrow> env \<Rightarrow> refMixinAPIObject \<Rightarrow> (string \<times> property) list \<Rightarrow> state
   \<Rightarrow> state result option"
where
  "property_accept 0 E pa st = None"
| "property_accept (Suc n) E pa st =
     (case lookupProperty (tree st) pa of
        None \<Rightarrow> Some (Inl NilPointer)
      | Some p \<Rightarrow>
          if kind p = typeAlias then Some (visitTypeAlias E pa st)
          else (let st1 = visitComments (comments p) (propertyComments pa) st in
                if isMixinRef E (ref p)
                then (case ref p of
                        None \<Rightarrow> Some (Inl NilPointer)
                      | Some r \<Rightarrow>
                          (case getAPIObject E (tree st1) (Parse E (Name E r)) of
                             Inl err \<Rightarrow> Some (Inl err)
                           | Inr oa \<Rightarrow>
                               (case lookupObject (tree st1) oa of
                                  None \<Rightarrow> Some (Inl NilPointer)
                                | Some ao \<Rightarrow>
                                    refMixinAPIObject_accept n E
                                      \<lparr>rm_apiObject = ao, rm_addr = oa, rm_prop = pa,
                                       rm_parentMixinName = []\<rparr> st1)))
                else if ref p \<noteq> None \<and> \<not> isMixinRef E (ref p)
                then Some (visitRefProperty E pa st1)
                else if schemaType p = None
                then Some (Inl (Panic ''Neither a type nor a ref''))
                else Some (visitProperty pa st1)))"
| "refMixinAPIObject_accept n E rmao st =
     (case lookupObject (tree st) (rm_addr rmao) of
        None \<Rightarrow> Some (Inl NilPointer)
      | Some ao \<Rightarrow>
          (case refMixinAPIObject_loop n E rmao
                  (sortAndFilterBlacklisted E (k8sVersionOf st) (properties ao)) st of
             None \<Rightarrow> None
           | Some (Inl err) \<Rightarrow> Some (Inl err)
           | Some (Inr st') \<Rightarrow> Some (visitRefMixinAPIObject E rmao st')))"
| "refMixinAPIObject_loop n E rmao [] st = Some (Inr st)"
| "refMixinAPIObject_loop n E rmao (kp # pms) st =
     (if isSpecialProperty E (name (snd kp)) then refMixinAPIObject_loop n E rmao pms st
      else (case property_accept n E (rm_addr rmao, fst kp)
                   (st\<lparr>tree := updProperty (rm_addr rmao, fst kp)
                                  (\<lambda>pm. pm\<lparr>parentMixinName := rm_parentMixinName rmao\<rparr>)
                                  (tree st)\<rparr>) of
              None \<Rightarrow> None
            | Some (Inl err) \<Rightarrow> Some (Inl err)
            | Some (Inr st') \<Rightarrow> refMixinAPIObject_loop n E rmao pms st'))"

  by pat_completeness auto
termination
  by (relation "measures
        [\<lambda>x. case x of Inl (n, _) \<Rightarrow> n | Inr (Inl (n, _)) \<Rightarrow> n | Inr (Inr (n, _)) \<Rightarrow> n,
         \<lambda>x. case x of Inl _ \<Rightarrow> 0 | Inr (Inl _) \<Rightarrow> 2 | Inr (Inr _) \<Rightarrow> 1,
         \<lambda>x. case x of Inl _ \<Rightarrow> 0 | Inr (Inl _) \<Rightarrow> 0
                  | Inr (Inr (n, E, rmao, l, st)) \<Rightarrow> length l]")
     auto

definition apiObject_accept :: "nat \<Rightarrow> env \<Rightarrow> objAddr \<Rightarrow> state \<Rightarrow> state result option" where
  "apiObject_accept n E a st =
     (case lookupObject (tree st) a of
        None \<Rightarrow> Some (Inl NilPointer)
      | Some ao \<Rightarrow>
          (case forEach (\<lambda>kp. property_accept n E (a, fst kp))
                  (sortAndFilterBlacklisted E (k8sVersionOf st) (properties ao))
                  (visitComments (ao_comments ao) (objectComments a) st) of
             None \<Rightarrow> None
           | Some (Inl err) \<Rightarrow> Some (Inl err)
           | Some (Inr st') \<Rightarrow> Some (visitAPIObject E a st')))"

definition versionedAPI_accept ::
  "nat \<Rightarrow> env \<Rightarrow> versionedAddr \<Rightarrow> state \<Rightarrow> state result option" where
  "versionedAPI_accept n E a st =
     (case lookupVersioned (tree st) a of
        None \<Rightarrow> Some (Inl NilPointer)
      | Some va \<Rightarrow>
          (case forEach (\<lambda>ko. apiObject_accept n E (fst a, fst (snd a), snd (snd a), fst ko))
                  (apiObjectSet_toSortedSlice (apiObjects va)) st of
             None \<Rightarrow> None
           | Some (Inl err) \<Rightarrow> Some (Inl err)
           | Some (Inr st') \<Rightarrow> Some (visitVersionedAPI E a st')))"

definition group_accept ::
  "nat \<Rightarrow> env \<Rightarrow> groupAddr \<Rightarrow> bool \<Rightarrow> state \<Rightarrow> state result option" where
  "group_accept n E ga hidden st =
     (case lookupGroup (tree st) ga of
        None \<Rightarrow> Some (Inl NilPointer)
      | Some gr \<Rightarrow>
          (case forEach (\<lambda>kv. versionedAPI_accept n E (fst ga, snd ga, fst kv))
                  (versionedAPISet_toSortedSlice (versionedAPIs gr)) st of
             None \<Rightarrow> None
           | Some (Inl err) \<Rightarrow> Some (Inl err)
           | Some (Inr st') \<Rightarrow> Some (visitGroup E ga hidden st')))"

definition root_accept :: "nat \<Rightarrow> env \<Rightarrow> state \<Rightarrow> state result option" where
  "root_accept n E st =
     (case forEach (\<lambda>kg. group_accept n E (visibleTree, fst kg) False)
             (groupSet_toSortedSlice (groups (tree st))) st of
        None \<Rightarrow> None
      | Some (Inl err) \<Rightarrow> Some (Inl err)
      | Some (Inr st1) \<Rightarrow>
          (case forEach (\<lambda>kg. group_accept n E (hiddenTree, fst kg) True)
                  (groupSet_toSortedSlice (hiddenGroups (tree st1))) st1 of
             None \<Rightarrow> None
           | Some (Inl err) \<Rightarrow> Some (Inl err)
           | Some (Inr st2) \<Rightarrow> Some (visitRoot st2)))"

text \<open>
  \<^verbatim>\<open>Emit\<close> returns the two documents, or does not return: a panic, or a recursion
  that does not end. The error \<^verbatim>\<open>Emit\<close> would pass on from \<^verbatim>\<open>m.bytes()\<close> does not
  arise, the rendering writes to a buffer in memory.
\<close>

definition Emit ::
  "nat \<Rightarrow> env \<Rightarrow> APISpec \<Rightarrow> string option \<Rightarrow> string option
   \<Rightarrow> (string \<times> string) result option" where
  "Emit n E sp libSHA kSHA =
     (case newRoot E sp libSHA kSHA of
        Inl err \<Rightarrow> Some (Inl err)
      | Inr r \<Rightarrow>
          (case root_accept n E (newEmitVisitor r newIndentWriter) of
             None \<Rightarrow> None
           | Some (Inl err) \<Rightarrow> Some (Inl err)
           | Some (Inr st) \<Rightarrow>
               (case bytes (m st) of
                  Inl err \<Rightarrow> Some (Inl err)
                | Inr k8sBytes \<Rightarrow> Some (Inr (KSource E (Info_Version sp), k8sBytes)))))"

section \<open>Emitting into the indent writer\<close>

text \<open>
  The \<^verbatim>\<open>emit\<close> methods write into one indent writer and read the tree; what they hand
  on is the writer together with what has been written to the log.
\<close>

type_synonym sink = "indentWriter \<times> string list"

definition comments_emit :: "string list \<Rightarrow> indentWriter \<Rightarrow> indentWriter" where
  "comments_emit cs i = foldl (\<lambda>w c. writeLine w (commentLine c)) i cs"

definition emitAsTypeAlias :: "env \<Rightarrow> root \<Rightarrow> property \<Rightarrow> sink \<Rightarrow> sink result" where
  "emitAsTypeAlias E r p s =
     (case aliasPath E p of
        Inl err \<Rightarrow> Inl err
      | Inr pth \<Rightarrow>
          (case Version (Parse E pth) of
             None \<Rightarrow>
               Inr (fst s, snd s @ [''Could not emit type alias for '' @ sq @ pth @ sq
                                    @ [CHR 0x0A]])
           | Some v \<Rightarrow>
               Inr (writeLine (fst s) (aliasLine E (Info_Version (spec r)) p (Parse E pth) v),
                    snd s)))"

text \<open>
  The \<^verbatim>\<open>switch\<close> of \<^verbatim>\<open>emitHelper\<close> on the declared type: whether a mixin function is
  emitted, the body of the setter and the body of the mixin function.
\<close>

definition typedBodies ::
  "string \<Rightarrow> string \<Rightarrow> string \<Rightarrow> string option \<Rightarrow> (bool \<times> string \<times> string) result" where
  "typedBodies paramType paramName fieldName parentMixin =
     (if paramType = ''array'' then
        (case parentMixin of
           None \<Rightarrow>
             Inr (True,
                  ''if std.type('' @ paramName @ '') == \"array\" then {'' @ fieldName @ '': ''
                    @ paramName @ ''} else {'' @ fieldName @ '': ['' @ paramName @ '']}'',
                  ''if std.type('' @ paramName @ '') == \"array\" then {'' @ fieldName @ ''+: ''
                    @ paramName @ ''} else {'' @ fieldName @ ''+: ['' @ paramName @ '']}'')
         | Some pmn \<Rightarrow>
             Inr (True,
                  ''if std.type('' @ paramName @ '') == \"array\" then '' @ pmn @ ''({''
                    @ fieldName @ '': '' @ paramName @ ''}) else '' @ pmn @ ''({'' @ fieldName
                    @ '': ['' @ paramName @ '']})'',
                  ''if std.type('' @ paramName @ '') == \"array\" then '' @ pmn @ ''({''
                    @ fieldName @ ''+: '' @ paramName @ ''}) else '' @ pmn @ ''({'' @ fieldName
                    @ ''+: ['' @ paramName @ '']})''))
      else if paramType = ''integer'' \<or> paramType = ''string'' \<or> paramType = ''boolean'' then
        (case parentMixin of
           None \<Rightarrow> Inr (False, ''{'' @ fieldName @ '': '' @ paramName @ ''}'', [])
         | Some pmn \<Rightarrow>
             Inr (False, pmn @ ''({'' @ fieldName @ '': '' @ paramName @ ''})'', []))
      else if paramType = ''object'' then
        (case parentMixin of
           None \<Rightarrow>
             Inr (True, ''{'' @ fieldName @ '': '' @ paramName @ ''}'',
                  ''{'' @ fieldName @ ''+: '' @ paramName @ ''}'')
         | Some pmn \<Rightarrow>
             Inr (True, pmn @ ''({'' @ fieldName @ '': '' @ paramName @ ''})'',
                  pmn @ ''({'' @ fieldName @ ''+: '' @ paramName @ ''})''))
      else Inl (Panic (''Unrecognized type '' @ sq @ paramType @ sq)))"

definition emitTyped ::
  "env \<Rightarrow> string \<Rightarrow> property \<Rightarrow> string \<Rightarrow> string option \<Rightarrow> indentWriter
   \<Rightarrow> indentWriter result" where
  "emitTyped E k8sVersion p paramType parentMixin i =
     (let setterFunctionName = ToSetterID E (RewriteAsIdentifier E k8sVersion (name p));
          mixinFunctionName = ToMixinID E (RewriteAsIdentifier E k8sVersion (name p));
          paramName = RewriteAsFuncParam E k8sVersion (name p);
          fieldName = RewriteAsFieldKey E (name p);
          setterSignature = setterFunctionName @ ''('' @ paramName @ '')::'';
          mixinSignature = mixinFunctionName @ ''('' @ paramName @ '')::''
      in case typedBodies paramType paramName fieldName parentMixin of
           Inl err \<Rightarrow> Inl err
         | Inr (emitMixin, setterBody, mixinBody) \<Rightarrow>
             (let i1 = writeLine i (setterSignature @ '' self + '' @ setterBody @ '','')
              in if emitMixin
                 then Inr (writeLine (comments_emit (comments p) i1)
                             (mixinSignature @ '' self + '' @ mixinBody @ '',''))
                 else Inr i1))"

definition emitPlainRef ::
  "env \<Rightarrow> string \<Rightarrow> property \<Rightarrow> string option \<Rightarrow> indentWriter \<Rightarrow> indentWriter" where
  "emitPlainRef E k8sVersion p parentMixin i =
     (let setterFunctionName = ToSetterID E (RewriteAsIdentifier E k8sVersion (name p));
          paramName = RewriteAsFuncParam E k8sVersion (name p);
          fieldName = RewriteAsFieldKey E (name p);
          setterSignature = setterFunctionName @ ''('' @ paramName @ '')::'';
          body = (case parentMixin of
                    None \<Rightarrow> ''{'' @ fieldName @ '': '' @ paramName @ ''}''
                  | Some pmn \<Rightarrow> pmn @ ''({'' @ fieldName @ '': '' @ paramName @ ''})'')
      in writeLine i (setterSignature @ '' '' @ body @ '',''))"

definition mixinTextOf :: "string \<Rightarrow> string \<Rightarrow> string \<Rightarrow> string option \<Rightarrow> string" where
  "mixinTextOf mixinName paramName fieldName parentMixin =
     (case parentMixin of
        None \<Rightarrow> ''local '' @ mixinName @ ''('' @ paramName @ '') = {'' @ fieldName @ ''+: ''
                @ paramName @ ''},''
      | Some pmn \<Rightarrow> ''local '' @ mixinName @ ''('' @ paramName @ '') = '' @ pmn @ ''({''
                    @ fieldName @ ''+: '' @ paramName @ ''}),'')"

text \<open>
  \<^verbatim>\<open>emitHelper\<close> and \<^verbatim>\<open>emitAsRefMixins\<close> call each other as the visitor's methods do;
  the fuel bounds the depth of the nesting.
\<close>

function (sequential) emitHelper ::
  "nat \<Rightarrow> env \<Rightarrow> root \<Rightarrow> property \<Rightarrow> string option \<Rightarrow> sink \<Rightarrow> sink result option"
and emitAsRefMixins ::
  "nat \<Rightarrow> env \<Rightarrow> root \<Rightarrow> apiObject \<Rightarrow> property \<Rightarrow> string option \<Rightarrow> sink
   \<Rightarrow> sink result option"
and emitAsRefMixins_loop ::
  "nat \<Rightarrow> env \<Rightarrow> root \<Rightarrow> string \<Rightarrow> (string \<times> property) list \<Rightarrow> sink \<Rightarrow> sink result option"
where
  "emitHelper 0 E r p parentMixin s = None"
| "emitHelper (Suc n) E r p parentMixin s =
     (if kind p = typeAlias then Some (emitAsTypeAlias E r p s)
      else (let i1 = comments_emit (comments p) (fst s) in
            if isMixinRef E (ref p)
            then (case ref p of
                    None \<Rightarrow> Some (Inl NilPointer)
                  | Some rf \<Rightarrow>
                      (case getAPIObject E r (Parse E (Name E rf)) of
                         Inl err \<Rightarrow> Some (Inl err)
                       | Inr oa \<Rightarrow>
                           (case lookupObject r oa of
                              None \<Rightarrow> Some (Inl NilPointer)
                            | Some ao \<Rightarrow> emitAsRefMixins n E r ao p parentMixin (i1, snd s))))
            else if ref p \<noteq> None \<and> \<not> isMixinRef E (ref p)
            then Some (Inr (emitPlainRef E (Info_Version (spec r)) p parentMixin i1, snd s))
            else (case schemaType p of
                    Some paramType \<Rightarrow>
                      (case emitTyped E (Info_Version (spec r)) p paramType parentMixin i1 of
                         Inl err \<Rightarrow> Some (Inl err)
                       | Inr i2 \<Rightarrow> Some (Inr (i2, snd s)))
                  | None \<Rightarrow> Some (Inl (Panic ''Neither a type nor a ref'')))))"
| "emitAsRefMixins n E r ao p parentMixin s =
     (let k8sVersion = Info_Version (spec r);
          functionName = RewriteAsIdentifier E k8sVersion (name p);
          paramName = RewriteAsFuncParam E k8sVersion (name p);
          fieldName = RewriteAsFieldKey E (name p);
          mixinName = ''__'' @ functionName @ ''Mixin''
      in case lookupVersioned r (ao_parent ao) of
           None \<Rightarrow> Some (Inl NilPointer)
         | Some va \<Rightarrow>
             if map_of (apiObjects va) functionName \<noteq> None
             then Some (Inl (Panic (lowercaseClash functionName (version va))))
             else (let i1 = indent (writeLine (fst s) (functionName @ '':: {''));
                       i2 = writeLine i1 (mixinTextOf mixinName paramName fieldName parentMixin);
                       i3 = writeLine i2 (''mixinInstance('' @ paramName @ ''):: '' @ mixinName
                                          @ ''('' @ paramName @ ''),'')
                   in case emitAsRefMixins_loop n E r mixinName
                             (sortAndFilterBlacklisted E k8sVersion (properties ao))
                             (i3, snd s) of
                        None \<Rightarrow> None
                      | Some (Inl err) \<Rightarrow> Some (Inl err)
                      | Some (Inr s') \<Rightarrow>
                          Some (Inr (writeLine (dedent (fst s')) ''},'', snd s'))))"
| "emitAsRefMixins_loop n E r mixinName [] s = Some (Inr s)"
| "emitAsRefMixins_loop n E r mixinName (kp # pms) s =
     (if isSpecialProperty E (name (snd kp)) then emitAsRefMixins_loop n E r mixinName pms s
      else (case emitHelper n E r (snd kp) (Some mixinName) s of
              None \<Rightarrow> None
            | Some (Inl err) \<Rightarrow> Some (Inl err)
            | Some (Inr s') \<Rightarrow> emitAsRefMixins_loop n E r mixinName pms s'))"

  by pat_completeness auto
termination
  by (relation "measures
        [\<lambda>x. case x of Inl (n, _) \<Rightarrow> n | Inr (Inl (n, _)) \<Rightarrow> n | Inr (Inr (n, _)) \<Rightarrow> n,
         \<lambda>x. case x of Inl _ \<Rightarrow> 0 | Inr (Inl _) \<Rightarrow> 2 | Inr (Inr _) \<Rightarrow> 1,
         \<lambda>x. case x of Inl _ \<Rightarrow> 0 | Inr (Inl _) \<Rightarrow> 0
                  | Inr (Inr (n, E, r, mn, l, s)) \<Rightarrow> length l]")
     auto

definition property_emit :: "nat \<Rightarrow> env \<Rightarrow> root \<Rightarrow> property \<Rightarrow> sink \<Rightarrow> sink result option" where
  "property_emit n E r p s = emitHelper n E r p None s"

definition emitAsRefMixin ::
  "nat \<Rightarrow> env \<Rightarrow> root \<Rightarrow> property \<Rightarrow> string \<Rightarrow> sink \<Rightarrow> sink result option" where
  "emitAsRefMixin n E r p parentMixin s = emitHelper n E r p (Some parentMixin) s"

subsection \<open>The emit methods of the tree\<close>

text \<open>
  The methods \<^verbatim>\<open>emit\<close> of the root, the groups, the versions and the objects write the
  document straight into the indent writer. \<^verbatim>\<open>Emit\<close> no longer calls them, but they are
  still part of the package.
\<close>

text \<open>\<^verbatim>\<open>strings.Join\<close> of the Go library.\<close>

fun Join :: "string list \<Rightarrow> string \<Rightarrow> string" where
  "Join [] sep = []"
| "Join [x] sep = x"
| "Join (x # y # ys) sep = x @ sep @ Join (y # ys) sep"

text \<open>
  The loop of \<^verbatim>\<open>emitConstructor\<close> over the parameters: the literals of the parameter
  list and the setters of the body, as gathered so far.
\<close>

fun constructorParams ::
  "env \<Rightarrow> string \<Rightarrow> (string \<times> property) list \<Rightarrow> CustomConstructorParam list
   \<Rightarrow> string list \<Rightarrow> string list \<Rightarrow> (string list \<times> string list) result" where
  "constructorParams E k8sVersion props [] paramLiterals setters = Inr (paramLiterals, setters)"
| "constructorParams E k8sVersion props (param # rest) paramLiterals setters =
     (let paramLiterals' =
            paramLiterals
            @ [case DefaultValue param of
                 Some d \<Rightarrow> ID param @ ''='' @ d
               | None \<Rightarrow> ID param]
      in case RelativePath param of
           None \<Rightarrow>
             (case map_of props (ID param) of
                None \<Rightarrow>
                  Inl (Panic (''Attempted to create constructor, but property '' @ sq
                              @ ID param @ sq @ '' does not exist''))
              | Some pr \<Rightarrow>
                  constructorParams E k8sVersion props rest paramLiterals'
                    (setters
                     @ [''self.'' @ ToSetterID E (RewriteAsIdentifier E k8sVersion (name pr))
                        @ ''('' @ ID param @ '')'']))
         | Some rp \<Rightarrow>
             constructorParams E k8sVersion props rest paramLiterals'
               (setters @ [''self.'' @ rp @ ''('' @ ID param @ '')'']))"

definition emitConstructor ::
  "env \<Rightarrow> root \<Rightarrow> apiObject \<Rightarrow> string \<Rightarrow> CustomConstructorParam list \<Rightarrow> indentWriter
   \<Rightarrow> indentWriter result" where
  "emitConstructor E r ao ident params i =
     (case map_of (properties ao) ident of
        Some dm \<Rightarrow>
          Inl (Panic (''Attempted to create constructor, but '' @ sq @ ident @ sq
                      @ '' property already existed at '' @ sq @ path dm @ sq))
      | None \<Rightarrow>
          (let defaultSetters = (if isTopLevel ao then specialPropertiesList E else [''{}''])
           in case constructorParams E (Info_Version (spec r)) (properties ao) params []
                     defaultSetters of
                Inl err \<Rightarrow> Inl err
              | Inr (paramLiterals, setters) \<Rightarrow>
                  Inr (writeLine i (ident @ ''('' @ Join paramLiterals '', '' @ ''):: ''
                                    @ Join setters '' + '' @ '',''))))"

fun emitConstructors_loop ::
  "env \<Rightarrow> root \<Rightarrow> apiObject \<Rightarrow> CustomConstructorSpec list \<Rightarrow> indentWriter
   \<Rightarrow> indentWriter result" where
  "emitConstructors_loop E r ao [] i = Inr i"
| "emitConstructors_loop E r ao (sp # sps) i =
     (case emitConstructor E r ao (Spec_ID sp) (Params sp) i of
        Inl err \<Rightarrow> Inl err
      | Inr i' \<Rightarrow> emitConstructors_loop E r ao sps i')"

definition emitConstructors ::
  "env \<Rightarrow> root \<Rightarrow> apiObject \<Rightarrow> indentWriter \<Rightarrow> indentWriter result" where
  "emitConstructors E r ao i =
     (case ConstructorSpec E (Info_Version (spec r)) (Unparse E (parsedName ao)) of
        None \<Rightarrow> emitConstructor E r ao (constructorName E) [] i
      | Some specs \<Rightarrow> emitConstructors_loop E r ao specs i)"

definition apiObject_emit ::
  "nat \<Rightarrow> env \<Rightarrow> root \<Rightarrow> apiObject \<Rightarrow> sink \<Rightarrow> sink result option" where
  "apiObject_emit n E r ao s =
     (let k8sVersion = Info_Version (spec r);
          jsonnetName = RewriteAsIdentifier E k8sVersion (ao_name ao);
          pms = sortAndFilterBlacklisted E k8sVersion (properties ao)
      in case lookupVersioned r (ao_parent ao) of
           None \<Rightarrow> Some (Inl NilPointer)
         | Some va \<Rightarrow>
             if map_of (apiObjects va) jsonnetName \<noteq> None
             then Some (Inl (Panic (lowercaseClash jsonnetName (version va))))
             else (let i1 = indent (writeLine (comments_emit (ao_comments ao) (fst s))
                                      (jsonnetName @ '':: {''));
                       i2 = (if isTopLevel ao
                             then writeLine i1 (''local kind = {kind: \"'' @ ao_name ao @ ''\"},'')
                             else i1)
                   in case emitConstructors E r ao i2 of
                        Inl err \<Rightarrow> Some (Inl err)
                      | Inr i3 \<Rightarrow>
                          (case forEach (\<lambda>kp. property_emit n E r (snd kp))
                                  (filter (\<lambda>kp. \<not> (isSpecialProperty E (name (snd kp))
                                                    \<or> isMixinRef E (ref (snd kp))))
                                     pms)
                                  (i3, snd s) of
                             None \<Rightarrow> None
                           | Some (Inl err) \<Rightarrow> Some (Inl err)
                           | Some (Inr s4) \<Rightarrow>
                               (case forEach (\<lambda>kp. property_emit n E r (snd kp))
                                       (filter (\<lambda>kp. isMixinRef E (ref (snd kp))) pms)
                                       (indent (writeLine (fst s4) ''mixin:: {''), snd s4) of
                                  None \<Rightarrow> None
                                | Some (Inl err) \<Rightarrow> Some (Inl err)
                                | Some (Inr s5) \<Rightarrow>
                                    Some (Inr (writeLine
                                                 (dedent (writeLine (dedent (fst s5)) ''},''))
                                                 ''},'',
                                               snd s5))))))"

definition versionedAPI_emit ::
  "nat \<Rightarrow> env \<Rightarrow> root \<Rightarrow> versionedAPI \<Rightarrow> sink \<Rightarrow> sink result option" where
  "versionedAPI_emit n E r va s =
     (case lookupGroup r (va_parent va) of
        None \<Rightarrow> Some (Inl NilPointer)
      | Some gr \<Rightarrow>
          (let i1 = indent (writeLine (fst s) (version va @ '':: {''));
               i2 = writeLine i1 (apiVersionLine (qualifiedName gr) (version va))
           in case forEach (\<lambda>ko. apiObject_emit n E r (snd ko))
                     (apiObjectSet_toSortedSlice (apiObjects va)) (i2, snd s) of
                None \<Rightarrow> None
              | Some (Inl err) \<Rightarrow> Some (Inl err)
              | Some (Inr s3) \<Rightarrow> Some (Inr (writeLine (dedent (fst s3)) ''},'', snd s3))))"

definition group_emit :: "nat \<Rightarrow> env \<Rightarrow> root \<Rightarrow> group \<Rightarrow> sink \<Rightarrow> sink result option" where
  "group_emit n E r gr s =
     (let mixinName = RewriteAsIdentifier E (Info_Version (spec r)) (g_name gr);
          i1 = indent (writeLine (fst s) (mixinName @ '':: {''))
      in case forEach (\<lambda>kv. versionedAPI_emit n E r (snd kv))
                (versionedAPISet_toSortedSlice (versionedAPIs gr)) (i1, snd s) of
           None \<Rightarrow> None
         | Some (Inl err) \<Rightarrow> Some (Inl err)
         | Some (Inr s2) \<Rightarrow> Some (Inr (writeLine (dedent (fst s2)) ''},'', snd s2)))"

text \<open>
  In \<^verbatim>\<open>root.emit\<close>, as in \<^verbatim>\<open>visitRoot\<close>, both stamp lines stand under the test of
  \<^verbatim>\<open>root.ksonnetLibSHA\<close>.
\<close>

definition root_emit :: "nat \<Rightarrow> env \<Rightarrow> root \<Rightarrow> sink \<Rightarrow> sink result option" where
  "root_emit n E r s =
     (let m1 = writeLine (fst s)
                 ''// AUTOGENERATED from the Kubernetes OpenAPI specification. DO NOT MODIFY.'';
          m2 = writeLine m1 (''// Kubernetes version: '' @ Info_Version (spec r));
          m3 = (case ksonnetLibSHA r of
                  None \<Rightarrow> m2
                | Some x \<Rightarrow> writeLine m2 (''// SHA of ksonnet-lib HEAD: '' @ x))
      in case (case ksonnetLibSHA r of
                 None \<Rightarrow> Inr m3
               | Some _ \<Rightarrow>
                   (case k8sSHA r of
                      None \<Rightarrow> Inl NilPointer
                    | Some k \<Rightarrow>
                        Inr (writeLine m3
                               (''// SHA of Kubernetes HEAD OpenAPI spec is generated from: ''
                                @ k)))) of
           Inl err \<Rightarrow> Some (Inl err)
         | Inr m4 \<Rightarrow>
             (case forEach (\<lambda>kg. group_emit n E r (snd kg))
                     (groupSet_toSortedSlice (groups r))
                     (indent (writeLine (writeLine m4 []) ''{''), snd s) of
                None \<Rightarrow> None
              | Some (Inl err) \<Rightarrow> Some (Inl err)
              | Some (Inr s5) \<Rightarrow>
                  (case forEach (\<lambda>kg. group_emit n E r (snd kg))
                          (groupSet_toSortedSlice (hiddenGroups r))
                          (indent (writeLine (fst s5) ''local hidden = {''), snd s5) of
                     None \<Rightarrow> None
                   | Some (Inl err) \<Rightarrow> Some (Inl err)
                   | Some (Inr s6) \<Rightarrow>
                       Some (Inr (writeLine (dedent (writeLine (dedent (fst s6)) ''},'')) ''}'',
                                  snd s6)))))"

section \<open>Comparing trees and reading results\<close>

text \<open>
  \<open>withoutMixinNames\<close> is the tree with the field \<^verbatim>\<open>parentMixinName\<close> of every property
  emptied: two trees agree on it exactly when they agree on every field of every node but
  that one. \<open>noMixinNames\<close> holds of a tree in which the field is empty everywhere.
\<close>

definition eraseProperty :: "property \<Rightarrow> property" where
  "eraseProperty p = p\<lparr>parentMixinName := []\<rparr>"

definition eraseObject :: "apiObject \<Rightarrow> apiObject" where
  "eraseObject ao = ao\<lparr>properties := map (\<lambda>kp. (fst kp, eraseProperty (snd kp))) (properties ao)\<rparr>"

definition eraseVersioned :: "versionedAPI \<Rightarrow> versionedAPI" where
  "eraseVersioned va = va\<lparr>apiObjects := map (\<lambda>ko. (fst ko, eraseObject (snd ko))) (apiObjects va)\<rparr>"

definition eraseGroup :: "group \<Rightarrow> group" where
  "eraseGroup gr = gr\<lparr>versionedAPIs := map (\<lambda>kv. (fst kv, eraseVersioned (snd kv))) (versionedAPIs gr)\<rparr>"

definition withoutMixinNames :: "root \<Rightarrow> root" where
  "withoutMixinNames r =
     r\<lparr>groups := map (\<lambda>kg. (fst kg, eraseGroup (snd kg))) (groups r),
       hiddenGroups := map (\<lambda>kg. (fst kg, eraseGroup (snd kg))) (hiddenGroups r)\<rparr>"

definition noMixinNames :: "root \<Rightarrow> bool" where
  "noMixinNames r = (withoutMixinNames r = r)"

text \<open>
  \<open>respec\<close> replaces the specification the root points to; \<open>carry\<close> and \<open>withSpec\<close>
  apply a change to the state or the root a run returns.
\<close>

definition respec :: "APISpec \<Rightarrow> state \<Rightarrow> state" where
  "respec s st = st\<lparr>tree := (tree st)\<lparr>spec := s\<rparr>\<rparr>"

definition carry :: "(state \<Rightarrow> state) \<Rightarrow> state result \<Rightarrow> state result" where
  "carry f res = (case res of Inl e \<Rightarrow> Inl e | Inr st \<Rightarrow> Inr (f st))"

definition withSpec :: "APISpec \<Rightarrow> root result \<Rightarrow> root result" where
  "withSpec s res = (case res of Inl e \<Rightarrow> Inl e | Inr r \<Rightarrow> Inr (r\<lparr>spec := s\<rparr>))"

text \<open>
  The line of a setter and of a mixin function with a given body, and the text of the
  lines a run of an \<^verbatim>\<open>emit\<close> method has written.
\<close>

definition setterLine :: "env \<Rightarrow> string \<Rightarrow> property \<Rightarrow> string \<Rightarrow> string" where
  "setterLine E v p body =
     ToSetterID E (RewriteAsIdentifier E v (name p)) @ ''('' @ RewriteAsFuncParam E v (name p)
     @ ''):: self + '' @ body @ '',''"

definition mixinLine :: "env \<Rightarrow> string \<Rightarrow> property \<Rightarrow> string \<Rightarrow> string" where
  "mixinLine E v p body =
     ToMixinID E (RewriteAsIdentifier E v (name p)) @ ''('' @ RewriteAsFuncParam E v (name p)
     @ ''):: self + '' @ body @ '',''"

definition linesOf :: "sink result option \<Rightarrow> string list" where
  "linesOf res = (case res of Some (Inr s) \<Rightarrow> map line_text (lines (fst s)) | _ \<Rightarrow> [])"

section \<open>A small schema world\<close>

text \<open>
  Concrete collaborators and inputs on which the statements below are run. A definition
  path is \<open>group/version/Kind\<close> or \<open>version/Kind\<close> (the core group); a path without a
  slash carries no version. A reference is \<open>#/definitions/\<close> followed by the path.
\<close>

definition demoParse :: "string \<Rightarrow> parsedDefinitionName" where
  "demoParse p =
     (case splitChar (CHR ''/'') [] p of
        [g, v, k] \<Rightarrow> \<lparr>Group = Some g, Version = Some v, Kind = k\<rparr>
      | [v, k] \<Rightarrow> \<lparr>Group = None, Version = Some v, Kind = k\<rparr>
      | _ \<Rightarrow> \<lparr>Group = None, Version = None, Kind = p\<rparr>)"

definition demoUnparse :: "parsedDefinitionName \<Rightarrow> string" where
  "demoUnparse pn =
     (case Group pn of None \<Rightarrow> [] | Some g \<Rightarrow> g @ ''/'')
     @ (case Version pn of None \<Rightarrow> [] | Some v \<Rightarrow> v @ ''/'') @ Kind pn"

definition demoEnv :: env where
  "demoEnv =
     \<lparr>Parse = demoParse,
      Unparse = demoUnparse,
      Name = drop 14,
      IsMixinRef = (\<lambda>r. r \<noteq> ''#/definitions/v1/Time''),
      isSpecialProperty = (\<lambda>n. n = ''apiVersion'' \<or> n = ''kind''),
      IsBlacklistedProperty = (\<lambda>v p n. n = ''status''),
      RewriteAsIdentifier = (\<lambda>v n. n),
      RewriteAsFuncParam = (\<lambda>v n. n),
      RewriteAsFieldKey = (\<lambda>n. n),
      ToSetterID = (\<lambda>n. ''with_'' @ n),
      ToMixinID = (\<lambda>n. ''with_'' @ n @ ''_mixin''),
      KSource = (\<lambda>v. ''k.libsonnet for '' @ v),
      ConstructorSpec = (\<lambda>v p. None),
      constructorName = ''new'',
      specialPropertiesList = [''apiVersion'', ''kind'']\<rparr>"

definition demoObj :: objAddr where
  "demoObj = (visibleTree, ''core'', ''v1'', ''Pod'')"

definition mkProperty ::
  "propertyKind \<Rightarrow> string \<Rightarrow> string option \<Rightarrow> string option \<Rightarrow> string option \<Rightarrow> property" where
  "mkProperty k n rf ty itemRef =
     \<lparr>kind = k, ref = rf, schemaType = ty, itemTypes = \<lparr>Items_Ref = itemRef\<rparr>, name = n,
      path = ''v1/Pod'', comments = [''doc''], parent = demoObj, parentMixinName = []\<rparr>"

definition specProps :: "(string \<times> property) list" where
  "specProps =
     [(''specType'', mkProperty typeAlias ''specType'' (Some ''#/definitions/v1/PodSpec'') None None),
      (''specA'', mkProperty methodKind ''specA'' None (Some ''string'') None),
      (''spec'', mkProperty methodKind ''spec'' (Some ''#/definitions/v1/PodSpec'') None None)]"

definition fooAlias :: property where
  "fooAlias = mkProperty typeAlias ''fooType'' (Some ''#/definitions/Foo'') None None"

definition mkProp :: "string option \<Rightarrow> string option \<Rightarrow> string option \<Rightarrow> Property" where
  "mkProp ty rf itemRef =
     \<lparr>Property_Description = ''doc'', Property_Type = ty,
      Property_Items = \<lparr>Items_Ref = itemRef\<rparr>, Property_Ref = rf\<rparr>"

definition demoSpec :: APISpec where
  "demoSpec =
     \<lparr>Info_Version = ''v1.7.0'',
      Definitions =
        [(''v1/Pod'',
          \<lparr>Description = ''a pod'',
           Properties = [(''spec'', mkProp None (Some ''#/definitions/v1/PodSpec'') None),
                         (''kind'', mkProp (Some ''string'') None None)],
           TopLevelSpecs = [\<lparr>TopLevelSpec_Group = [], TopLevelSpec_Version = ''v1'',
                             TopLevelSpec_Kind = ''Pod''\<rparr>]\<rparr>),
         (''IntOrString'',
          \<lparr>Description = ''no version'', Properties = [], TopLevelSpecs = []\<rparr>),
         (''v1/PodSpec'',
          \<lparr>Description = ''spec of a pod'',
           Properties = [(''hostname'', mkProp (Some ''string'') None None),
                         (''startTime'', mkProp None (Some ''#/definitions/v1/Time'') None),
                         (''container'', mkProp None (Some ''#/definitions/v1/Container'') None)],
           TopLevelSpecs = []\<rparr>),
         (''v1/Container'',
          \<lparr>Description = ''a container'',
           Properties = [(''image'', mkProp (Some ''string'') None None),
                         (''ports'', mkProp (Some ''array'') None (Some ''#/definitions/Port''))],
           TopLevelSpecs = []\<rparr>)]\<rparr>"

definition podDef :: SchemaDefinition where
  "podDef = \<lparr>Description = ''a pod'', Properties = [], TopLevelSpecs = []\<rparr>"

definition dupSpec :: APISpec where
  "dupSpec = \<lparr>Info_Version = ''v1.7.0'',
              Definitions = [(''v1/Pod'', podDef), (''core/v1/Pod'', podDef)]\<rparr>"

definition emptyRoot :: "APISpec \<Rightarrow> string option \<Rightarrow> string option \<Rightarrow> root" where
  "emptyRoot sp libSHA kSHA =
     \<lparr>spec = sp, groups = [], hiddenGroups = [], ksonnetLibSHA = libSHA, k8sSHA = kSHA\<rparr>"

definition demoRoot :: root where
  "demoRoot =
     (case newRoot demoEnv demoSpec None None of
        Inr r \<Rightarrow> r
      | Inl _ \<Rightarrow> emptyRoot demoSpec None None)"

definition stampSpec :: APISpec where
  "stampSpec = \<lparr>Info_Version = ''v1.7.0'', Definitions = []\<rparr>"

definition orderSpec :: "(string \<times> Property) list \<Rightarrow> APISpec" where
  "orderSpec ps =
     \<lparr>Info_Version = ''v1.7.0'',
      Definitions = [(''v1/Pod'', \<lparr>Description = ''a pod'', Properties = ps, TopLevelSpecs = []\<rparr>)]\<rparr>"

definition fooFirst :: "(string \<times> Property) list" where
  "fooFirst = [(''foo'', mkProp (Some ''array'') None (Some ''#/definitions/v1/Bar'')),
               (''fooType'', mkProp (Some ''string'') None None)]"

definition fooLast :: "(string \<times> Property) list" where
  "fooLast = [(''fooType'', mkProp (Some ''string'') None None),
              (''foo'', mkProp (Some ''array'') None (Some ''#/definitions/v1/Bar''))]"

definition podSpecAddr :: objAddr where
  "podSpecAddr = (hiddenTree, ''core'', ''v1'', ''PodSpec'')"

definition podSpecProperty :: propAddr where
  "podSpecProperty = ((visibleTree, ''core'', ''v1'', ''Pod''), ''spec'')"

text \<open>
  The \<^verbatim>\<open>refMixinAPIObject\<close> that \<^verbatim>\<open>property.accept\<close> creates at the property \<open>spec\<close> of
  \<open>Pod\<close>: the object \<open>PodSpec\<close>, the property, and the empty qualifier.
\<close>

definition demoRmao :: refMixinAPIObject where
  "demoRmao =
     \<lparr>rm_apiObject = (case lookupObject demoRoot podSpecAddr of
                        Some ao \<Rightarrow> ao
                      | None \<Rightarrow> newAPIObject (demoParse ''v1/PodSpec'') (hiddenTree, ''core'', ''v1'') podDef),
      rm_addr = podSpecAddr,
      rm_prop = podSpecProperty,
      rm_parentMixinName = []\<rparr>"

definition treeAfter :: "state result option \<Rightarrow> root option" where
  "treeAfter res = (case res of Some (Inr st) \<Rightarrow> Some (tree st) | _ \<Rightarrow> None)"

definition portsProperty :: property where
  "portsProperty = mkProperty methodKind ''ports'' None (Some ''array'') None"

section \<open>Properties\<close>

subsection \<open>Sorting and filtering the properties\<close>

lemma skipped_iff:
  "skipped E v pm \<longleftrightarrow>
     IsBlacklistedProperty E v (path pm) (blacklistName pm) \<or> refWithoutVersion E pm"
  by (simp add: skipped_def)

text \<open>
  C2, as the code has it. The properties selected for emission are those of the property
  set that are neither blacklisted (the blacklist being asked under the name without the
  alias suffix \<open>Type\<close>) nor carry a reference whose path has no version, each as often as
  it occurs in the set, in ascending order of the full property name, alias suffix
  included.
\<close>

theorem sortAndFilterBlacklisted_by_full_name:
  "sorted (map (\<lambda>kp. name (snd kp)) (sortAndFilterBlacklisted E v aos)) \<and>
   mset (sortAndFilterBlacklisted E v aos) =
     filter_mset
       (\<lambda>kp. \<not> IsBlacklistedProperty E v (path (snd kp)) (blacklistName (snd kp))
             \<and> \<not> refWithoutVersion E (snd kp))
       (mset aos)"
  by (simp add: sortAndFilterBlacklisted_def skipped_iff)

theorem sortAndFilterBlacklisted_by_full_name_witness:
  "map fst (sortAndFilterBlacklisted demoEnv ''v1.7.0'' specProps) = [''spec'', ''specA'', ''specType'']
   \<and> sorted (map (\<lambda>kp. name (snd kp)) (sortAndFilterBlacklisted demoEnv ''v1.7.0'' specProps))"
proof -
  have "map fst (sortAndFilterBlacklisted demoEnv ''v1.7.0'' specProps) = [''spec'', ''specA'', ''specType'']"
    by code_simp
  with sortAndFilterBlacklisted_by_full_name [of demoEnv "''v1.7.0''" specProps]
  show ?thesis by simp
qed

text \<open>
  The order is not that of the names without the alias suffix: \<open>spec\<close>, \<open>specA\<close> and the
  alias \<open>specType\<close> are emitted in this order, and \<open>specA\<close> stands between the property
  and its alias.
\<close>

theorem sorted_by_stripped_name_counterexample:
  "\<not> sorted (map (\<lambda>kp. blacklistName (snd kp))
               (sortAndFilterBlacklisted demoEnv ''v1.7.0'' specProps))"
  by code_simp

text \<open>
  C10, as the code has it. A property of the set, alias or not, is selected exactly when
  it is not blacklisted and does not carry a reference whose path parses to no version.
  The step is a function of the property set alone and writes no diagnostic; every loop
  that emits properties (\<open>apiObject_accept\<close>, \<open>refMixinAPIObject_accept\<close>,
  \<open>visitAPIObject\<close>, \<open>visitRefMixinAPIObject\<close>, \<open>emitAsRefMixins\<close>) runs over its result.
\<close>

theorem sortAndFilterBlacklisted_drops_unversioned_refs:
  assumes "kp \<in> set aos"
  shows "kp \<in> set (sortAndFilterBlacklisted E v aos) \<longleftrightarrow>
           \<not> IsBlacklistedProperty E v (path (snd kp)) (blacklistName (snd kp))
           \<and> \<not> (\<exists>r. ref (snd kp) = Some r \<and> Version (Parse E (Name E r)) = None)"
  using assms
  by (auto simp: sortAndFilterBlacklisted_def skipped_iff refWithoutVersion_def
           split: option.splits)

theorem sortAndFilterBlacklisted_drops_unversioned_refs_witness:
  "(''fooType'', fooAlias) \<in> set [(''fooType'', fooAlias), (''bar'', mkProperty methodKind ''bar'' None (Some ''string'') None)]
   \<and> (''fooType'', fooAlias) \<notin> set (sortAndFilterBlacklisted demoEnv ''v1.7.0''
          [(''fooType'', fooAlias), (''bar'', mkProperty methodKind ''bar'' None (Some ''string'') None)])"
proof -
  have a: "(''fooType'', fooAlias) \<in> set [(''fooType'', fooAlias), (''bar'', mkProperty methodKind ''bar'' None (Some ''string'') None)]"
    by simp
  have b: "ref (snd (''fooType'', fooAlias)) = Some ''#/definitions/Foo''
           \<and> Version (Parse demoEnv (Name demoEnv ''#/definitions/Foo'')) = None"
    by code_simp
  from sortAndFilterBlacklisted_drops_unversioned_refs [OF a, of demoEnv "''v1.7.0''"] a b
  show ?thesis by blast
qed

text \<open>
  A type alias whose reference has no version is not blacklisted, is not a non-alias
  property, and is dropped all the same.
\<close>

theorem alias_not_retained_counterexample:
  "kind fooAlias \<noteq> methodKind
   \<and> \<not> IsBlacklistedProperty demoEnv ''v1.7.0'' (path fooAlias) (blacklistName fooAlias)
   \<and> (''fooType'', fooAlias) \<notin> set (sortAndFilterBlacklisted demoEnv ''v1.7.0'' [(''fooType'', fooAlias)])"
  by code_simp

subsection \<open>Resolving a reference\<close>

lemma lookupObject_SomeD:
  assumes "lookupObject r (t, g, v, k) = Some ao"
  obtains gr va where "map_of (groupSetOf r t) g = Some gr"
    and "map_of (versionedAPIs gr) v = Some va" and "map_of (apiObjects va) k = Some ao"
  using assms
  by (auto simp: lookupObject_def lookupVersioned_def lookupGroup_def split: option.splits)

lemma lookupObject_None_iff:
  "lookupObject r (t, g, v, k) = None \<longleftrightarrow>
     (case map_of (groupSetOf r t) g of None \<Rightarrow> True
      | Some gr \<Rightarrow> (case map_of (versionedAPIs gr) v of None \<Rightarrow> True
                    | Some va \<Rightarrow> map_of (apiObjects va) k = None))"
  by (auto simp: lookupObject_def lookupVersioned_def lookupGroup_def split: option.splits)

lemma getAPIObjectHelper_found:
  assumes "Version pn = Some v"
    and "lookupObject r (if hidden then visibleTree else hiddenTree, groupNameOf pn, v, Kind pn) = Some ao"
  shows "getAPIObjectHelper E r pn hidden =
           Inr (Inr (if hidden then visibleTree else hiddenTree, groupNameOf pn, v, Kind pn))"
  using assms(2)
  by (elim lookupObject_SomeD) (simp add: getAPIObjectHelper_def assms(1) Let_def)

lemma getAPIObjectHelper_missing:
  assumes "Version pn = Some v"
    and "lookupObject r (if hidden then visibleTree else hiddenTree, groupNameOf pn, v, Kind pn) = None"
  shows "\<exists>msg. getAPIObjectHelper E r pn hidden = Inr (Inl msg)"
  using assms
  by (cases hidden; auto simp: lookupObject_None_iff getAPIObjectHelper_def Let_def
        split: option.splits)

text \<open>
  C9. For a parsed name with a version (every reference that reaches the lookup has one,
  \<open>sortAndFilterBlacklisted\<close> drops the others), \<open>getAPIObject\<close> answers with the object
  of the hidden tree when the hidden tree holds the chain of group, version and kind;
  with the object of the visible tree when only the visible tree holds it; and panics
  with the error text of the lookup in the visible tree when neither does.
\<close>

theorem getAPIObject_hidden_tree_first:
  assumes "Version pn = Some v"
  shows "(lookupObject r (hiddenTree, groupNameOf pn, v, Kind pn) \<noteq> None \<longrightarrow>
            getAPIObject E r pn = Inr (hiddenTree, groupNameOf pn, v, Kind pn))
       \<and> (lookupObject r (hiddenTree, groupNameOf pn, v, Kind pn) = None
          \<and> lookupObject r (visibleTree, groupNameOf pn, v, Kind pn) \<noteq> None \<longrightarrow>
            getAPIObject E r pn = Inr (visibleTree, groupNameOf pn, v, Kind pn))
       \<and> (lookupObject r (hiddenTree, groupNameOf pn, v, Kind pn) = None
          \<and> lookupObject r (visibleTree, groupNameOf pn, v, Kind pn) = None \<longrightarrow>
            (\<exists>msg. getAPIObjectHelper E r pn True = Inr (Inl msg)
                   \<and> getAPIObject E r pn = Inl (Panic msg)))"
proof (intro conjI impI)
  assume "lookupObject r (hiddenTree, groupNameOf pn, v, Kind pn) \<noteq> None"
  then obtain ao where "lookupObject r (hiddenTree, groupNameOf pn, v, Kind pn) = Some ao"
    by blast
  with getAPIObjectHelper_found [OF assms, of r False ao E]
  show "getAPIObject E r pn = Inr (hiddenTree, groupNameOf pn, v, Kind pn)"
    by (simp add: getAPIObject_def)
next
  assume h: "lookupObject r (hiddenTree, groupNameOf pn, v, Kind pn) = None
             \<and> lookupObject r (visibleTree, groupNameOf pn, v, Kind pn) \<noteq> None"
  then obtain ao where ao: "lookupObject r (visibleTree, groupNameOf pn, v, Kind pn) = Some ao"
    by blast
  from h getAPIObjectHelper_missing [OF assms, of r False E]
  obtain msg where "getAPIObjectHelper E r pn False = Inr (Inl msg)" by auto
  with getAPIObjectHelper_found [OF assms, of r True ao E] ao
  show "getAPIObject E r pn = Inr (visibleTree, groupNameOf pn, v, Kind pn)"
    by (simp add: getAPIObject_def)
next
  assume h: "lookupObject r (hiddenTree, groupNameOf pn, v, Kind pn) = None
             \<and> lookupObject r (visibleTree, groupNameOf pn, v, Kind pn) = None"
  from h getAPIObjectHelper_missing [OF assms, of r False E]
  obtain msg1 where m1: "getAPIObjectHelper E r pn False = Inr (Inl msg1)" by auto
  from h getAPIObjectHelper_missing [OF assms, of r True E]
  obtain msg where m2: "getAPIObjectHelper E r pn True = Inr (Inl msg)" by auto
  from m1 m2 show "\<exists>msg. getAPIObjectHelper E r pn True = Inr (Inl msg)
                   \<and> getAPIObject E r pn = Inl (Panic msg)"
    by (simp add: getAPIObject_def)
qed

theorem getAPIObject_hidden_tree_first_witness:
  "Version (demoParse ''v1/PodSpec'') = Some ''v1''
   \<and> lookupObject demoRoot (hiddenTree, ''core'', ''v1'', ''PodSpec'') \<noteq> None
   \<and> getAPIObject demoEnv demoRoot (demoParse ''v1/PodSpec'')
       = Inr (hiddenTree, ''core'', ''v1'', ''PodSpec'')"
proof -
  have v: "Version (demoParse ''v1/PodSpec'') = Some ''v1''"
    by code_simp
  have g: "groupNameOf (demoParse ''v1/PodSpec'') = ''core''"
    and k: "Kind (demoParse ''v1/PodSpec'') = ''PodSpec''"
    by code_simp+
  have l: "lookupObject demoRoot (hiddenTree, ''core'', ''v1'', ''PodSpec'') \<noteq> None"
    by code_simp
  from getAPIObject_hidden_tree_first [OF v, of demoRoot demoEnv] v l
  show ?thesis by (simp add: g k)
qed

subsection \<open>Building the tree\<close>

lemma addDefinitions_append:
  "addDefinitions E r (xs @ ys) =
     (case addDefinitions E r xs of Inl e \<Rightarrow> Inl e | Inr r' \<Rightarrow> addDefinitions E r' ys)"
  by (induction xs arbitrary: r) (auto split: sum.splits)

lemma createAPIObject_duplicate:
  assumes "Version pn = Some v"
    and "lookupObject r (if TopLevelSpecs def = [] then hiddenTree else visibleTree,
                         groupNameOf pn, v, Kind pn) = Some ao"
  shows "createAPIObject E r pn def =
           Inl (Panic (''Duplicate object kinds with name '' @ sq @ Unparse E pn @ sq))"
  using assms
  by (cases "TopLevelSpecs def = []")
     (auto elim!: lookupObject_SomeD simp: createAPIObject_def Let_def)

text \<open>
  C5. A definition whose group, version and kind lead, in the tree its resource markers
  route it to, to a versioned API that already holds an object of that kind makes
  \<^verbatim>\<open>addDefinition\<close> panic with the message that names the path, and \<^verbatim>\<open>Emit\<close> ends
  with that panic and returns no document, whatever the fuel.
\<close>

theorem duplicate_kind_is_fatal:
  assumes "Definitions sp = ds1 @ (pth, def) # ds2"
    and "addDefinitions E (emptyRoot sp libSHA kSHA) ds1 = Inr r"
    and "Version (Parse E pth) = Some v"
    and "lookupObject r (if TopLevelSpecs def = [] then hiddenTree else visibleTree,
                         groupNameOf (Parse E pth), v, Kind (Parse E pth)) \<noteq> None"
  shows "addDefinition E r pth def =
           Inl (Panic (''Duplicate object kinds with name '' @ sq @ Unparse E (Parse E pth) @ sq))
       \<and> Emit n E sp libSHA kSHA =
           Some (Inl (Panic (''Duplicate object kinds with name '' @ sq
                             @ Unparse E (Parse E pth) @ sq)))"
proof -
  from assms(4) obtain ao where
    "lookupObject r (if TopLevelSpecs def = [] then hiddenTree else visibleTree,
                     groupNameOf (Parse E pth), v, Kind (Parse E pth)) = Some ao"
    by blast
  from createAPIObject_duplicate [OF assms(3) this, of E]
  have a: "addDefinition E r pth def =
             Inl (Panic (''Duplicate object kinds with name '' @ sq @ Unparse E (Parse E pth) @ sq))"
    by (simp add: addDefinition_def Let_def assms(3))
  have "newRoot E sp libSHA kSHA =
          Inl (Panic (''Duplicate object kinds with name '' @ sq @ Unparse E (Parse E pth) @ sq))"
    using assms(1,2) a
    by (simp add: newRoot_def emptyRoot_def addDefinitions_append)
  with a show ?thesis by (simp add: Emit_def)
qed

theorem duplicate_kind_is_fatal_witness:
  "Emit 1 demoEnv dupSpec None None =
     Some (Inl (Panic (''Duplicate object kinds with name '' @ sq @ ''core/v1/Pod'' @ sq)))"
proof -
  have d: "Definitions dupSpec = [(''v1/Pod'', podDef)] @ (''core/v1/Pod'', podDef) # []"
    by (simp add: dupSpec_def)
  have "case addDefinitions demoEnv (emptyRoot dupSpec None None) [(''v1/Pod'', podDef)] of
          Inl _ \<Rightarrow> False
        | Inr r \<Rightarrow> lookupObject r (hiddenTree, ''core'', ''v1'', ''Pod'') \<noteq> None"
    by code_simp
  then obtain r where
    r: "addDefinitions demoEnv (emptyRoot dupSpec None None) [(''v1/Pod'', podDef)] = Inr r"
    and l: "lookupObject r (hiddenTree, ''core'', ''v1'', ''Pod'') \<noteq> None"
    by (auto split: sum.splits)
  have p: "Parse demoEnv ''core/v1/Pod'' = \<lparr>Group = Some ''core'', Version = Some ''v1'', Kind = ''Pod''\<rparr>"
    by code_simp
  have v: "Version (Parse demoEnv ''core/v1/Pod'') = Some ''v1''"
    by (simp add: p)
  have l': "lookupObject r (if TopLevelSpecs podDef = [] then hiddenTree else visibleTree,
              groupNameOf (Parse demoEnv ''core/v1/Pod''), ''v1'',
              Kind (Parse demoEnv ''core/v1/Pod'')) \<noteq> None"
    using l by (simp add: p podDef_def groupNameOf_def)
  have u: "Unparse demoEnv (Parse demoEnv ''core/v1/Pod'') = ''core/v1/Pod''"
    unfolding p by code_simp
  from duplicate_kind_is_fatal [OF d r v l', of 1] show ?thesis
    by (simp add: u)
qed

subsection \<open>The header\<close>

text \<open>
  C8, at a failing input. With no ksonnet-lib stamp and the Kubernetes stamp \<open>abc\<close> the
  document has no stamp line at all: the line of the Kubernetes stamp stands under the
  test of the ksonnet-lib stamp. With a ksonnet-lib stamp and no Kubernetes stamp the run
  dereferences a nil pointer. The method \<^verbatim>\<open>root.emit\<close> does the same on both inputs.
\<close>

theorem K8s_SHA_line_guarded_by_ksonnetLibSHA:
  "Emit 0 demoEnv stampSpec None (Some ''abc'') =
     Some (Inr (''k.libsonnet for v1.7.0'',
       ''// AUTOGENERATED from the Kubernetes OpenAPI specification. DO NOT MODIFY.\<newline>// Kubernetes version: v1.7.0\<newline>\<newline>{\<newline>  local hidden = {\<newline>  },\<newline>}\<newline>''))
   \<and> Emit 0 demoEnv stampSpec (Some ''abc'') None = Some (Inl NilPointer)
   \<and> linesOf (root_emit 0 demoEnv (emptyRoot stampSpec None (Some ''abc''))
                 (newIndentWriter, [])) =
     [''// AUTOGENERATED from the Kubernetes OpenAPI specification. DO NOT MODIFY.'',
      ''// Kubernetes version: v1.7.0'', [], ''{'', ''local hidden = {'', ''},'', ''}'']
   \<and> root_emit 0 demoEnv (emptyRoot stampSpec (Some ''abc'') None) (newIndentWriter, []) =
     Some (Inl NilPointer)"
  by code_simp

subsection \<open>Determinism\<close>

text \<open>
  C3, at a failing input. The same map of properties, iterated in two orders, gives a
  document in one run and a panic in the other: the alias \<open>fooType\<close> of the array \<open>foo\<close>
  collides with the property \<open>fooType\<close> only when the latter is added first.
\<close>

theorem Emit_depends_on_iteration_order:
  "mset fooFirst = mset fooLast
   \<and> Emit 1 demoEnv (orderSpec fooFirst) None None =
     Some (Inr (''k.libsonnet for v1.7.0'',
       ''// AUTOGENERATED from the Kubernetes OpenAPI specification. DO NOT MODIFY.\<newline>// Kubernetes version: v1.7.0\<newline>\<newline>{\<newline>  local hidden = {\<newline>  },\<newline>}\<newline>''))
   \<and> Emit 1 demoEnv (orderSpec fooLast) None None =
     Some (Inl (Panic (''Can't create type alias '' @ sq @ ''fooType'' @ sq
                       @ '' because a property with that name already exists'')))"
proof -
  have "mset fooFirst = mset fooLast"
    by (simp add: fooFirst_def fooLast_def)
  moreover have "Emit 1 demoEnv (orderSpec fooFirst) None None =
     Some (Inr (''k.libsonnet for v1.7.0'',
       ''// AUTOGENERATED from the Kubernetes OpenAPI specification. DO NOT MODIFY.\<newline>// Kubernetes version: v1.7.0\<newline>\<newline>{\<newline>  local hidden = {\<newline>  },\<newline>}\<newline>''))"
    by code_simp
  moreover have "Emit 1 demoEnv (orderSpec fooLast) None None =
     Some (Inl (Panic (''Can't create type alias '' @ sq @ ''fooType'' @ sq
                       @ '' because a property with that name already exists'')))"
    by code_simp
  ultimately show ?thesis by blast
qed

subsection \<open>Type aliases\<close>

text \<open>
  C6. Where the path a type alias refers to parses to no version, \<^verbatim>\<open>visitTypeAlias\<close>
  returns normally: it registers an empty buffer for the alias, appends one line to the
  log and leaves the writer, the group buffers and every other buffer as they are;
  \<^verbatim>\<open>property.accept\<close> does nothing else for an alias. \<^verbatim>\<open>emitAsTypeAlias\<close> logs the same
  line and writes nothing, and \<^verbatim>\<open>emitHelper\<close> does nothing else for an alias.
\<close>

theorem type_alias_without_version_is_skipped:
  assumes "lookupProperty (tree st) pa = Some p"
    and "kind p = typeAlias"
    and "aliasPath E p = Inr pth"
    and "Version (Parse E pth) = None"
  shows "visitTypeAlias E pa st =
           Inr (st\<lparr>buffers := AList.update (propertyNode pa) [] (buffers st),
                    logged := logged st @ [''Could not emit type alias for '' @ sq @ pth @ sq
                                           @ [CHR 0x0A]]\<rparr>)
       \<and> property_accept (Suc n) E pa st = Some (visitTypeAlias E pa st)
       \<and> emitAsTypeAlias E r p s =
           Inr (fst s, snd s @ [''Could not emit type alias for '' @ sq @ pth @ sq @ [CHR 0x0A]])
       \<and> emitHelper (Suc n) E r p parentMixin s = Some (emitAsTypeAlias E r p s)"
  using assms by (simp add: visitTypeAlias_def emitAsTypeAlias_def)

theorem type_alias_without_version_is_skipped_witness:
  "map_sum id logged
     (visitTypeAlias demoEnv ((hiddenTree, ''core'', ''v1'', ''Container''), ''portsType'')
        (newEmitVisitor demoRoot newIndentWriter))
   = Inr [''Could not emit type alias for '' @ sq @ ''Port'' @ sq @ [CHR 0x0A]]"
proof -
  have "case lookupProperty demoRoot ((hiddenTree, ''core'', ''v1'', ''Container''), ''portsType'') of
          None \<Rightarrow> False
        | Some p \<Rightarrow> kind p = typeAlias \<and> aliasPath demoEnv p = Inr ''Port''"
    by code_simp
  then obtain p where
    p: "lookupProperty (tree (newEmitVisitor demoRoot newIndentWriter))
          ((hiddenTree, ''core'', ''v1'', ''Container''), ''portsType'') = Some p"
    and k: "kind p = typeAlias" and a: "aliasPath demoEnv p = Inr ''Port''"
    by (auto simp: newEmitVisitor_def split: option.splits)
  have v: "Version (Parse demoEnv ''Port'') = None"
    by code_simp
  from type_alias_without_version_is_skipped [OF p k a v, of 0 demoRoot "(newIndentWriter, [])" None]
  show ?thesis by (simp add: newEmitVisitor_def)
qed

subsection \<open>Typed properties\<close>

text \<open>
  C4. For a method property with a declared type and no reference, \<^verbatim>\<open>emitHelper\<close>
  writes the comments and the setter, and for the types \<open>array\<close> and \<open>object\<close> the
  comments again and the mixin function; for \<open>integer\<close>, \<open>string\<close> and \<open>boolean\<close> it
  writes the comments and the setter and nothing more. The body of an array setter tests
  the type of the argument in the generated code and wraps an argument that is no array
  into a list of one element.
\<close>

theorem typed_property_setter_and_mixin:
  assumes "kind p = methodKind" and "ref p = None" and "schemaType p = Some t"
  shows "(t = ''array'' \<or> t = ''object'' \<longrightarrow>
            (\<exists>setterBody mixinBody.
               typedBodies t (RewriteAsFuncParam E (Info_Version (spec r)) (name p))
                 (RewriteAsFieldKey E (name p)) parentMixin = Inr (True, setterBody, mixinBody)
               \<and> emitHelper (Suc n) E r p parentMixin s =
                   Some (Inr (writeLine
                                (comments_emit (comments p)
                                   (writeLine (comments_emit (comments p) (fst s))
                                      (setterLine E (Info_Version (spec r)) p setterBody)))
                                (mixinLine E (Info_Version (spec r)) p mixinBody),
                              snd s))))
       \<and> (t = ''integer'' \<or> t = ''string'' \<or> t = ''boolean'' \<longrightarrow>
            (\<exists>setterBody.
               typedBodies t (RewriteAsFuncParam E (Info_Version (spec r)) (name p))
                 (RewriteAsFieldKey E (name p)) parentMixin = Inr (False, setterBody, [])
               \<and> emitHelper (Suc n) E r p parentMixin s =
                   Some (Inr (writeLine (comments_emit (comments p) (fst s))
                                (setterLine E (Info_Version (spec r)) p setterBody),
                              snd s))))
       \<and> typedBodies ''array'' P F None =
             Inr (True,
                  ''if std.type('' @ P @ '') == \"array\" then {'' @ F @ '': '' @ P
                    @ ''} else {'' @ F @ '': ['' @ P @ '']}'',
                  ''if std.type('' @ P @ '') == \"array\" then {'' @ F @ ''+: '' @ P
                    @ ''} else {'' @ F @ ''+: ['' @ P @ '']}'')
       \<and> typedBodies ''array'' P F (Some q) =
             Inr (True,
                  ''if std.type('' @ P @ '') == \"array\" then '' @ q @ ''({'' @ F @ '': '' @ P
                    @ ''}) else '' @ q @ ''({'' @ F @ '': ['' @ P @ '']})'',
                  ''if std.type('' @ P @ '') == \"array\" then '' @ q @ ''({'' @ F @ ''+: '' @ P
                    @ ''}) else '' @ q @ ''({'' @ F @ ''+: ['' @ P @ '']})'')"
proof -
  have nm: "\<not> isMixinRef E (ref p)"
    by (simp add: assms(2) isMixinRef_def)
  have e: "emitHelper (Suc n) E r p pm s =
             (case emitTyped E (Info_Version (spec r)) p t pm
                     (comments_emit (comments p) (fst s)) of
                Inl err \<Rightarrow> Some (Inl err)
              | Inr i2 \<Rightarrow> Some (Inr (i2, snd s)))" for pm
    using assms nm by (simp add: Let_def)
  have a: "t = ''array'' \<or> t = ''object'' \<longrightarrow>
            (\<exists>setterBody mixinBody.
               typedBodies t (RewriteAsFuncParam E (Info_Version (spec r)) (name p))
                 (RewriteAsFieldKey E (name p)) parentMixin = Inr (True, setterBody, mixinBody)
               \<and> emitHelper (Suc n) E r p parentMixin s =
                   Some (Inr (writeLine
                                (comments_emit (comments p)
                                   (writeLine (comments_emit (comments p) (fst s))
                                      (setterLine E (Info_Version (spec r)) p setterBody)))
                                (mixinLine E (Info_Version (spec r)) p mixinBody),
                              snd s)))"
    by (cases parentMixin)
       (auto simp: e emitTyped_def typedBodies_def Let_def setterLine_def mixinLine_def
             simp del: emitHelper.simps)
  have b: "t = ''integer'' \<or> t = ''string'' \<or> t = ''boolean'' \<longrightarrow>
            (\<exists>setterBody.
               typedBodies t (RewriteAsFuncParam E (Info_Version (spec r)) (name p))
                 (RewriteAsFieldKey E (name p)) parentMixin = Inr (False, setterBody, [])
               \<and> emitHelper (Suc n) E r p parentMixin s =
                   Some (Inr (writeLine (comments_emit (comments p) (fst s))
                                (setterLine E (Info_Version (spec r)) p setterBody),
                              snd s)))"
    by (cases parentMixin)
       (auto simp: e emitTyped_def typedBodies_def Let_def setterLine_def
             simp del: emitHelper.simps)
  have c: "typedBodies ''array'' P F None =
             Inr (True,
                  ''if std.type('' @ P @ '') == \"array\" then {'' @ F @ '': '' @ P
                    @ ''} else {'' @ F @ '': ['' @ P @ '']}'',
                  ''if std.type('' @ P @ '') == \"array\" then {'' @ F @ ''+: '' @ P
                    @ ''} else {'' @ F @ ''+: ['' @ P @ '']}'')"
    by (simp add: typedBodies_def)
  have d: "typedBodies ''array'' P F (Some q) =
             Inr (True,
                  ''if std.type('' @ P @ '') == \"array\" then '' @ q @ ''({'' @ F @ '': '' @ P
                    @ ''}) else '' @ q @ ''({'' @ F @ '': ['' @ P @ '']})'',
                  ''if std.type('' @ P @ '') == \"array\" then '' @ q @ ''({'' @ F @ ''+: '' @ P
                    @ ''}) else '' @ q @ ''({'' @ F @ ''+: ['' @ P @ '']})'')"
    by (simp add: typedBodies_def)
  from a b c d show ?thesis by blast
qed

theorem typed_property_setter_and_mixin_witness:
  "linesOf (emitHelper (Suc 0) demoEnv demoRoot portsProperty None (newIndentWriter, [])) =
     [''// doc'',
      ''with_ports(ports):: self + if std.type(ports) == \"array\" then {ports: ports} else {ports: [ports]},'',
      ''// doc'',
      ''with_ports_mixin(ports):: self + if std.type(ports) == \"array\" then {ports+: ports} else {ports+: [ports]},'']"
proof -
  have k: "kind portsProperty = methodKind" and rf: "ref portsProperty = None"
    and ty: "schemaType portsProperty = Some ''array''"
    by (simp_all add: portsProperty_def mkProperty_def)
  have nm: "name portsProperty = ''ports''" and cs: "comments portsProperty = [''doc'']"
    by (simp_all add: portsProperty_def mkProperty_def)
  have ev: "RewriteAsFuncParam demoEnv v ''ports'' = ''ports''"
    "RewriteAsFieldKey demoEnv ''ports'' = ''ports''"
    "RewriteAsIdentifier demoEnv v ''ports'' = ''ports''"
    "ToSetterID demoEnv ''ports'' = ''with_ports''"
    "ToMixinID demoEnv ''ports'' = ''with_ports_mixin''" for v
    by (simp_all add: demoEnv_def)
  from typed_property_setter_and_mixin
         [OF k rf ty, of demoEnv demoRoot None 0 "(newIndentWriter, [])" "''ports''" "''ports''" "[]",
          THEN conjunct1, THEN mp, OF disjI1, OF HOL.refl]
  obtain setterBody mixinBody where
    tb: "typedBodies ''array''
           (RewriteAsFuncParam demoEnv (Info_Version (spec demoRoot)) (name portsProperty))
           (RewriteAsFieldKey demoEnv (name portsProperty)) None
         = Inr (True, setterBody, mixinBody)"
    and eh: "emitHelper (Suc 0) demoEnv demoRoot portsProperty None (newIndentWriter, []) =
             Some (Inr (writeLine
                          (comments_emit (comments portsProperty)
                             (writeLine
                                (comments_emit (comments portsProperty) (fst (newIndentWriter, [])))
                                (setterLine demoEnv (Info_Version (spec demoRoot)) portsProperty
                                   setterBody)))
                          (mixinLine demoEnv (Info_Version (spec demoRoot)) portsProperty mixinBody),
                        snd (newIndentWriter, [])))"
    by (auto simp del: emitHelper.simps)
  from tb have
    "setterBody = ''if std.type(ports) == \"array\" then {ports: ports} else {ports: [ports]}''"
    "mixinBody = ''if std.type(ports) == \"array\" then {ports+: ports} else {ports+: [ports]}''"
    by (simp_all add: nm ev typedBodies_def)
  then show ?thesis
    unfolding eh
    by (simp add: nm cs ev linesOf_def setterLine_def mixinLine_def comments_emit_def
          writeLine_def commentLine_def newIndentWriter_def)
qed

subsection \<open>What an expansion writes\<close>

lemma map_entry_absorbed:
  assumes "\<And>v. h (f v) = h v"
  shows "map (\<lambda>kv. (fst kv, h (snd kv))) (AList.map_entry k f al) = map (\<lambda>kv. (fst kv, h (snd kv))) al"
  by (induction al) (auto simp: assms)

lemma withoutMixinNames_updObject:
  assumes "\<And>ao. eraseObject (f ao) = eraseObject ao"
  shows "withoutMixinNames (updObject a f r) = withoutMixinNames r"
proof -
  obtain t g v k where a: "a = (t, g, v, k)" by (cases a) auto
  have va: "\<And>va. eraseVersioned (va\<lparr>apiObjects := AList.map_entry k f (apiObjects va)\<rparr>) = eraseVersioned va"
    by (simp add: eraseVersioned_def map_entry_absorbed [where h = eraseObject, OF assms])
  have gr: "\<And>gr. eraseGroup (gr\<lparr>versionedAPIs := AList.map_entry v
                (\<lambda>va. va\<lparr>apiObjects := AList.map_entry k f (apiObjects va)\<rparr>) (versionedAPIs gr)\<rparr>) = eraseGroup gr"
    by (simp add: eraseGroup_def map_entry_absorbed [where h = eraseVersioned, OF va])
  show ?thesis
    by (cases t)
       (simp_all add: a updObject_def setGroupSet_def groupSetOf_def withoutMixinNames_def
          map_entry_absorbed [where h = eraseGroup, OF gr])
qed

lemma withoutMixinNames_updProperty:
  "withoutMixinNames (updProperty a (\<lambda>pm. pm\<lparr>parentMixinName := q\<rparr>) r) = withoutMixinNames r"
proof -
  obtain oa n where a: "a = (oa, n)" by (cases a) auto
  have p: "\<And>pm. eraseProperty (pm\<lparr>parentMixinName := q\<rparr>) = eraseProperty pm"
    by (simp add: eraseProperty_def)
  have "\<And>ao. eraseObject (ao\<lparr>properties := AList.map_entry n (\<lambda>pm. pm\<lparr>parentMixinName := q\<rparr>) (properties ao)\<rparr>) = eraseObject ao"
    by (simp add: eraseObject_def map_entry_absorbed [where h = eraseProperty, OF p])
  then show ?thesis
    by (simp add: a updProperty_def withoutMixinNames_updObject)
qed

lemma tree_visitComments [simp]: "tree (visitComments cs n st) = tree st"
  by (simp add: visitComments_def)

lemma tree_visitTypeAlias: "visitTypeAlias E pa st = Inr st' \<Longrightarrow> tree st' = tree st"
  by (auto simp: visitTypeAlias_def Let_def split: option.splits sum.splits)

lemma tree_visitRefProperty: "visitRefProperty E pa st = Inr st' \<Longrightarrow> tree st' = tree st"
  by (auto simp: visitRefProperty_def Let_def split: option.splits)

lemma tree_visitProperty: "visitProperty pa st = Inr st' \<Longrightarrow> tree st' = tree st"
  by (auto simp: visitProperty_def)

lemma tree_visitRefMixinAPIObject:
  "visitRefMixinAPIObject E rmao st = Inr st' \<Longrightarrow> tree st' = tree st"
  by (auto simp: visitRefMixinAPIObject_def Let_def split: option.splits if_splits)

lemma tree_visitAPIObject: "visitAPIObject E a st = Inr st' \<Longrightarrow> tree st' = tree st"
  by (auto simp: visitAPIObject_def Let_def split: option.splits sum.splits)

lemma tree_visitVersionedAPI: "visitVersionedAPI E a st = Inr st' \<Longrightarrow> tree st' = tree st"
  by (auto simp: visitVersionedAPI_def Let_def split: option.splits sum.splits)

lemma tree_visitGroup: "visitGroup E ga hidden st = Inr st' \<Longrightarrow> tree st' = tree st"
  by (auto simp: visitGroup_def Let_def split: option.splits sum.splits if_splits)

lemma tree_visitRoot: "visitRoot st = Inr st' \<Longrightarrow> tree st' = tree st"
  by (auto simp: visitRoot_def Let_def split: option.splits sum.splits)

lemma accept_relates_trees:
  fixes Q :: "root \<Rightarrow> root \<Rightarrow> bool" and ok :: "string \<Rightarrow> bool"
  assumes Q_refl: "\<And>r. Q r r"
    and Q_trans: "\<And>a b c. Q a b \<Longrightarrow> Q b c \<Longrightarrow> Q a c"
    and Q_step: "\<And>a q r. ok q \<Longrightarrow> Q r (updProperty a (\<lambda>pm. pm\<lparr>parentMixinName := q\<rparr>) r)"
    and ok_empty: "ok []"
  shows "property_accept n E pa st = Some (Inr st') \<Longrightarrow> Q (tree st) (tree st')"
    and "refMixinAPIObject_accept n E rmao st = Some (Inr st') \<Longrightarrow>
           ok (rm_parentMixinName rmao) \<Longrightarrow> Q (tree st) (tree st')"
    and "refMixinAPIObject_loop n E rmao pms st = Some (Inr st') \<Longrightarrow>
           ok (rm_parentMixinName rmao) \<Longrightarrow> Q (tree st) (tree st')"
proof (induction n E pa st and n E rmao st and n E rmao pms st
       arbitrary: st' and st' and st'
       rule: property_accept_refMixinAPIObject_accept_refMixinAPIObject_loop.induct)
  case (1 E pa st)
  then show ?case by simp
next
  case (2 n E pa st)
  from "2.prems" obtain p where p: "lookupProperty (tree st) pa = Some p"
    by (cases "lookupProperty (tree st) pa") auto
  show ?case
  proof (cases "kind p = typeAlias")
    case True
    with "2.prems" p have "visitTypeAlias E pa st = Inr st'" by simp
    then show ?thesis by (simp add: tree_visitTypeAlias Q_refl)
  next
    case False
    define st1 where "st1 = visitComments (comments p) (propertyComments pa) st"
    have t1: "tree st1 = tree st" by (simp add: st1_def)
    show ?thesis
    proof (cases "isMixinRef E (ref p)")
      case True
      from "2.prems" p False True obtain rf where rf: "ref p = Some rf"
        by (cases "ref p") (auto simp: Let_def simp del: refMixinAPIObject_accept.simps)
      from "2.prems" p False True rf obtain oa where
        oa: "getAPIObject E (tree st1) (Parse E (Name E rf)) = Inr oa"
        by (cases "getAPIObject E (tree st1) (Parse E (Name E rf))")
           (auto simp: st1_def Let_def simp del: refMixinAPIObject_accept.simps)
      from "2.prems" p False True rf oa obtain ao where
        ao: "lookupObject (tree st1) oa = Some ao"
        by (cases "lookupObject (tree st1) oa")
           (auto simp: st1_def Let_def simp del: refMixinAPIObject_accept.simps)
      from "2.prems" p False True rf oa ao
      have "refMixinAPIObject_accept n E
              \<lparr>rm_apiObject = ao, rm_addr = oa, rm_prop = pa, rm_parentMixinName = []\<rparr> st1
            = Some (Inr st')"
        by (simp add: st1_def Let_def del: refMixinAPIObject_accept.simps)
      from "2.IH" [OF p False st1_def True rf oa ao this] ok_empty
      show ?thesis by (simp add: t1)
    next
      case nomix: False
      show ?thesis
      proof (cases "ref p \<noteq> None")
        case True
        with "2.prems" p False nomix have "visitRefProperty E pa st1 = Inr st'"
          by (simp add: st1_def Let_def)
        then show ?thesis using t1 by (simp add: tree_visitRefProperty Q_refl)
      next
        case noref: False
        with "2.prems" p False nomix have "visitProperty pa st1 = Inr st'"
          by (simp add: st1_def Let_def split: if_splits)
        then show ?thesis using t1 by (simp add: tree_visitProperty Q_refl)
      qed
    qed
  qed
next
  case (3 n E rmao st)
  from "3.prems"(1) obtain ao where ao: "lookupObject (tree st) (rm_addr rmao) = Some ao"
    by (cases "lookupObject (tree st) (rm_addr rmao)") auto
  from "3.prems"(1) ao obtain st1 where
    l: "refMixinAPIObject_loop n E rmao
          (sortAndFilterBlacklisted E (k8sVersionOf st) (properties ao)) st = Some (Inr st1)"
    and v: "visitRefMixinAPIObject E rmao st1 = Inr st'"
    by (auto split: option.splits sum.splits)
  from "3.IH" [OF ao l "3.prems"(2)] v show ?case
    by (simp add: tree_visitRefMixinAPIObject)
next
  case (4 n E rmao st)
  then show ?case by (simp add: Q_refl)
next
  case (5 n E rmao kp pms st)
  show ?case
  proof (cases "isSpecialProperty E (name (snd kp))")
    case True
    with "5.prems" have "refMixinAPIObject_loop n E rmao pms st = Some (Inr st')" by simp
    from "5.IH"(1) [OF True this "5.prems"(2)] show ?thesis .
  next
    case False
    define st0 where
      "st0 = st\<lparr>tree := updProperty (rm_addr rmao, fst kp)
                           (\<lambda>pm. pm\<lparr>parentMixinName := rm_parentMixinName rmao\<rparr>) (tree st)\<rparr>"
    from "5.prems"(1) False obtain st1 where
      a: "property_accept n E (rm_addr rmao, fst kp) st0 = Some (Inr st1)"
      and l: "refMixinAPIObject_loop n E rmao pms st1 = Some (Inr st')"
      by (auto simp: st0_def split: option.splits sum.splits)
    have q0: "Q (tree st) (tree st0)"
      using Q_step [OF "5.prems"(2)] by (simp add: st0_def)
    have q1: "Q (tree st0) (tree st1)"
      using "5.IH"(2) [OF False a [unfolded st0_def]] by (simp add: st0_def)
    have q2: "Q (tree st1) (tree st')"
      using "5.IH"(3) [OF False a [unfolded st0_def] refl l "5.prems"(2)] .
    from Q_trans [OF Q_trans [OF q0 q1] q2] show ?thesis .
  qed
qed

lemma forEach_relates_trees:
  fixes Q :: "root \<Rightarrow> root \<Rightarrow> bool"
  assumes Q_refl: "\<And>r. Q r r"
    and Q_trans: "\<And>a b c. Q a b \<Longrightarrow> Q b c \<Longrightarrow> Q a c"
    and f: "\<And>x s s'. f x s = Some (Inr s') \<Longrightarrow> Q (tree s) (tree s')"
  shows "forEach f xs st = Some (Inr st') \<Longrightarrow> Q (tree st) (tree st')"
proof (induction xs arbitrary: st)
  case Nil
  then show ?case by (simp add: Q_refl)
next
  case (Cons x xs)
  from Cons.prems obtain s1 where a: "f x st = Some (Inr s1)"
    and b: "forEach f xs s1 = Some (Inr st')"
    by (auto split: option.splits sum.splits)
  from Q_trans [OF f [OF a] Cons.IH [OF b]] show ?case .
qed

lemma accept_layers_relate_trees:
  fixes Q :: "root \<Rightarrow> root \<Rightarrow> bool" and ok :: "string \<Rightarrow> bool"
  assumes Q_refl: "\<And>r. Q r r"
    and Q_trans: "\<And>a b c. Q a b \<Longrightarrow> Q b c \<Longrightarrow> Q a c"
    and Q_step: "\<And>a q r. ok q \<Longrightarrow> Q r (updProperty a (\<lambda>pm. pm\<lparr>parentMixinName := q\<rparr>) r)"
    and ok_empty: "ok []"
  shows "apiObject_accept n E oa st = Some (Inr st') \<Longrightarrow> Q (tree st) (tree st')"
    and "versionedAPI_accept n E va st = Some (Inr st') \<Longrightarrow> Q (tree st) (tree st')"
    and "group_accept n E ga h st = Some (Inr st') \<Longrightarrow> Q (tree st) (tree st')"
    and "root_accept n E st = Some (Inr st') \<Longrightarrow> Q (tree st) (tree st')"
proof -
  note pa = accept_relates_trees(1) [where Q = Q and ok = ok, OF Q_refl Q_trans Q_step ok_empty]
  have ao: "Q (tree s) (tree s')" if "apiObject_accept n E a s = Some (Inr s')" for a s s'
  proof -
    from that obtain x where x: "lookupObject (tree s) a = Some x"
      by (cases "lookupObject (tree s) a") (auto simp: apiObject_accept_def)
    from that x obtain s1 where
      l: "forEach (\<lambda>kp. property_accept n E (a, fst kp))
            (sortAndFilterBlacklisted E (k8sVersionOf s) (properties x))
            (visitComments (ao_comments x) (objectComments a) s) = Some (Inr s1)"
      and v: "visitAPIObject E a s1 = Inr s'"
      by (auto simp: apiObject_accept_def split: option.splits sum.splits)
    from forEach_relates_trees [where Q = Q, OF Q_refl Q_trans pa l] v
    show ?thesis by (simp add: tree_visitAPIObject)
  qed
  have va: "Q (tree s) (tree s')" if "versionedAPI_accept n E a s = Some (Inr s')" for a s s'
  proof -
    from that obtain x where x: "lookupVersioned (tree s) a = Some x"
      by (cases "lookupVersioned (tree s) a") (auto simp: versionedAPI_accept_def)
    from that x obtain s1 where
      l: "forEach (\<lambda>ko. apiObject_accept n E (fst a, fst (snd a), snd (snd a), fst ko))
            (apiObjectSet_toSortedSlice (apiObjects x)) s = Some (Inr s1)"
      and v: "visitVersionedAPI E a s1 = Inr s'"
      by (auto simp: versionedAPI_accept_def split: option.splits sum.splits)
    from forEach_relates_trees [where Q = Q, OF Q_refl Q_trans ao l] v
    show ?thesis by (simp add: tree_visitVersionedAPI)
  qed
  have gr: "Q (tree s) (tree s')" if "group_accept n E a h s = Some (Inr s')" for a h s s'
  proof -
    from that obtain x where x: "lookupGroup (tree s) a = Some x"
      by (cases "lookupGroup (tree s) a") (auto simp: group_accept_def)
    from that x obtain s1 where
      l: "forEach (\<lambda>kv. versionedAPI_accept n E (fst a, snd a, fst kv))
            (versionedAPISet_toSortedSlice (versionedAPIs x)) s = Some (Inr s1)"
      and v: "visitGroup E a h s1 = Inr s'"
      by (auto simp: group_accept_def split: option.splits sum.splits)
    from forEach_relates_trees [where Q = Q, OF Q_refl Q_trans va l] v
    show ?thesis by (simp add: tree_visitGroup)
  qed
  show "apiObject_accept n E oa st = Some (Inr st') \<Longrightarrow> Q (tree st) (tree st')" by (rule ao)
  show "versionedAPI_accept n E va st = Some (Inr st') \<Longrightarrow> Q (tree st) (tree st')" by (rule va)
  show "group_accept n E ga h st = Some (Inr st') \<Longrightarrow> Q (tree st) (tree st')" by (rule gr)
  assume "root_accept n E st = Some (Inr st')"
  then obtain s1 s2 where
    a: "forEach (\<lambda>kg. group_accept n E (visibleTree, fst kg) False)
          (groupSet_toSortedSlice (groups (tree st))) st = Some (Inr s1)"
    and b: "forEach (\<lambda>kg. group_accept n E (hiddenTree, fst kg) True)
          (groupSet_toSortedSlice (hiddenGroups (tree s1))) s1 = Some (Inr s2)"
    and c: "visitRoot s2 = Inr st'"
    by (auto simp: root_accept_def split: option.splits sum.splits)
  from Q_trans [OF forEach_relates_trees [where Q = Q, OF Q_refl Q_trans gr a]
                   forEach_relates_trees [where Q = Q, OF Q_refl Q_trans gr b]] c
  show "Q (tree st) (tree st')" by (simp add: tree_visitRoot)
qed

lemma map_entry_commute:
  assumes "\<And>v. h (f v) = f (h v)"
  shows "map (\<lambda>kv. (fst kv, h (snd kv))) (AList.map_entry k f al)
         = AList.map_entry k f (map (\<lambda>kv. (fst kv, h (snd kv))) al)"
  by (induction al) (auto simp: assms)

lemma withoutMixinNames_updObject_commute:
  assumes "\<And>ao. eraseObject (f ao) = f (eraseObject ao)"
  shows "withoutMixinNames (updObject a f r) = updObject a f (withoutMixinNames r)"
proof -
  obtain t g v k where a: "a = (t, g, v, k)" by (cases a) auto
  have va: "\<And>va. eraseVersioned (va\<lparr>apiObjects := AList.map_entry k f (apiObjects va)\<rparr>)
                 = (eraseVersioned va)\<lparr>apiObjects := AList.map_entry k f (apiObjects (eraseVersioned va))\<rparr>"
    by (simp add: eraseVersioned_def map_entry_commute [where h = eraseObject and f = f, OF assms])
  have gr: "\<And>gr. eraseGroup (gr\<lparr>versionedAPIs := AList.map_entry v
                (\<lambda>va. va\<lparr>apiObjects := AList.map_entry k f (apiObjects va)\<rparr>) (versionedAPIs gr)\<rparr>)
            = (eraseGroup gr)\<lparr>versionedAPIs := AList.map_entry v
                (\<lambda>va. va\<lparr>apiObjects := AList.map_entry k f (apiObjects va)\<rparr>)
                (versionedAPIs (eraseGroup gr))\<rparr>"
    by (simp add: eraseGroup_def map_entry_commute [where h = eraseVersioned and f = "\<lambda>va. va\<lparr>apiObjects := AList.map_entry k f (apiObjects va)\<rparr>", OF va])
  show ?thesis
    by (cases t)
       (simp_all add: a updObject_def setGroupSet_def groupSetOf_def withoutMixinNames_def
          map_entry_commute [where h = eraseGroup and f = "\<lambda>gr. gr\<lparr>versionedAPIs := AList.map_entry v
                (\<lambda>va. va\<lparr>apiObjects := AList.map_entry k f (apiObjects va)\<rparr>) (versionedAPIs gr)\<rparr>", OF gr])
qed

lemma noMixinNames_updProperty_empty:
  assumes "noMixinNames r"
  shows "updProperty a (\<lambda>pm. pm\<lparr>parentMixinName := []\<rparr>) r = r"
proof -
  obtain oa n where a: "a = (oa, n)" by (cases a) auto
  have p: "\<And>pm. eraseProperty (pm\<lparr>parentMixinName := []\<rparr>) = (eraseProperty pm)\<lparr>parentMixinName := []\<rparr>"
    by (simp add: eraseProperty_def)
  have "\<And>ao. eraseObject (ao\<lparr>properties := AList.map_entry n (\<lambda>pm. pm\<lparr>parentMixinName := []\<rparr>) (properties ao)\<rparr>)
            = (eraseObject ao)\<lparr>properties := AList.map_entry n (\<lambda>pm. pm\<lparr>parentMixinName := []\<rparr>)
                 (properties (eraseObject ao))\<rparr>"
    by (simp add: eraseObject_def map_entry_commute [where h = eraseProperty and f = "\<lambda>pm. pm\<lparr>parentMixinName := []\<rparr>", OF p])
  from withoutMixinNames_updObject_commute
         [where f = "\<lambda>ao. ao\<lparr>properties := AList.map_entry n (\<lambda>pm. pm\<lparr>parentMixinName := []\<rparr>) (properties ao)\<rparr>",
          OF this, of oa r]
  have "withoutMixinNames (updProperty a (\<lambda>pm. pm\<lparr>parentMixinName := []\<rparr>) r)
        = updProperty a (\<lambda>pm. pm\<lparr>parentMixinName := []\<rparr>) (withoutMixinNames r)"
    by (simp add: a updProperty_def)
  with assms show ?thesis
    by (simp add: noMixinNames_def withoutMixinNames_updProperty)
qed

lemma map_snd_update:
  "map (\<lambda>kv. (fst kv, h (snd kv))) (AList.update k v al)
   = AList.update k (h v) (map (\<lambda>kv. (fst kv, h (snd kv))) al)"
  by (induction al) auto

lemma map_snd_fixed:
  "map (\<lambda>kv. (fst kv, h (snd kv))) al = al \<Longrightarrow> map_of al k = Some v \<Longrightarrow> h v = v"
  by (induction al) (auto split: if_splits)

lemma noMixinNames_iff:
  "noMixinNames r \<longleftrightarrow>
     map (\<lambda>kg. (fst kg, eraseGroup (snd kg))) (groups r) = groups r
     \<and> map (\<lambda>kg. (fst kg, eraseGroup (snd kg))) (hiddenGroups r) = hiddenGroups r"
  by (cases r) (auto simp: noMixinNames_def withoutMixinNames_def)

lemma eraseGroup_fixed_iff:
  "eraseGroup gr = gr \<longleftrightarrow>
     map (\<lambda>kv. (fst kv, eraseVersioned (snd kv))) (versionedAPIs gr) = versionedAPIs gr"
  by (cases gr) (auto simp: eraseGroup_def)

lemma eraseVersioned_fixed_iff:
  "eraseVersioned va = va \<longleftrightarrow>
     map (\<lambda>ko. (fst ko, eraseObject (snd ko))) (apiObjects va) = apiObjects va"
  by (cases va) (auto simp: eraseVersioned_def)

lemma eraseObject_fixed_iff:
  "eraseObject ao = ao \<longleftrightarrow>
     map (\<lambda>kp. (fst kp, eraseProperty (snd kp))) (properties ao) = properties ao"
  by (cases ao) (auto simp: eraseObject_def)

lemma groupSet_fixed:
  "noMixinNames r \<Longrightarrow> map (\<lambda>kg. (fst kg, eraseGroup (snd kg))) (groupSetOf r t) = groupSetOf r t"
  by (cases t) (simp_all add: noMixinNames_iff groupSetOf_def)

lemma noMixinNames_setGroupSet:
  assumes "noMixinNames r"
    and "map (\<lambda>kg. (fst kg, eraseGroup (snd kg))) gs = gs"
  shows "noMixinNames (setGroupSet r t gs)"
  using assms by (cases t) (simp_all add: noMixinNames_iff setGroupSet_def)

lemma createAPIObject_noMixinNames:
  assumes "createAPIObject E r pn def = Inr (r', a)" and "noMixinNames r"
  shows "noMixinNames r'"
proof -
  from assms(1) obtain v where v: "Version pn = Some v"
    by (cases "Version pn") (auto simp: createAPIObject_def)
  define t where "t = (if 0 < length (TopLevelSpecs def) then visibleTree else hiddenTree)"
  define gs where "gs = groupSetOf r t"
  define qn where "qn = (case TopLevelSpecs def of [] \<Rightarrow> groupNameOf pn
            | s # x \<Rightarrow> if TopLevelSpec_Group s \<noteq> [] then TopLevelSpec_Group s else groupNameOf pn)"
  define gr where "gr = (case map_of gs (groupNameOf pn) of
                           None \<Rightarrow> newGroup (groupNameOf pn) qn | Some g \<Rightarrow> g)"
  define va where "va = (case map_of (versionedAPIs gr) v of
                           None \<Rightarrow> newVersionedAPI v (t, groupNameOf pn) | Some x \<Rightarrow> x)"
  define ao where "ao = newAPIObject pn (t, groupNameOf pn, v) def"
  have gsf: "map (\<lambda>kg. (fst kg, eraseGroup (snd kg))) gs = gs"
    unfolding gs_def by (rule groupSet_fixed [OF assms(2)])
  have grf: "eraseGroup gr = gr"
    unfolding gr_def
    by (auto simp: newGroup_def eraseGroup_def split: option.splits
             dest: map_snd_fixed [OF gsf])
  have vaf: "eraseVersioned va = va"
    unfolding va_def
    by (auto simp: newVersionedAPI_def eraseVersioned_def split: option.splits
             dest: map_snd_fixed [OF grf [unfolded eraseGroup_fixed_iff]])
  have aof: "eraseObject ao = ao"
    by (simp add: ao_def newAPIObject_def eraseObject_def)
  have va': "eraseVersioned (va\<lparr>apiObjects := AList.update (Kind pn) ao (apiObjects va)\<rparr>)
             = va\<lparr>apiObjects := AList.update (Kind pn) ao (apiObjects va)\<rparr>"
    using vaf aof by (simp add: eraseVersioned_fixed_iff map_snd_update)
  have gr': "eraseGroup (gr\<lparr>versionedAPIs := AList.update v
                 (va\<lparr>apiObjects := AList.update (Kind pn) ao (apiObjects va)\<rparr>) (versionedAPIs gr)\<rparr>)
             = gr\<lparr>versionedAPIs := AList.update v
                 (va\<lparr>apiObjects := AList.update (Kind pn) ao (apiObjects va)\<rparr>) (versionedAPIs gr)\<rparr>"
    using grf va' by (simp add: eraseGroup_fixed_iff map_snd_update)
  have "createAPIObject E r pn def =
          (case map_of (apiObjects va) (Kind pn) of
             Some _ \<Rightarrow> Inl (Panic (''Duplicate object kinds with name '' @ sq @ Unparse E pn @ sq))
           | None \<Rightarrow>
               Inr (setGroupSet r t (AList.update (groupNameOf pn)
                      (gr\<lparr>versionedAPIs := AList.update v
                         (va\<lparr>apiObjects := AList.update (Kind pn) ao (apiObjects va)\<rparr>)
                         (versionedAPIs gr)\<rparr>) gs),
                    (t, groupNameOf pn, v, Kind pn)))"
    unfolding createAPIObject_def Let_def v option.case
    unfolding t_def [symmetric]
    unfolding gs_def [symmetric] qn_def [symmetric]
    unfolding gr_def [symmetric]
    unfolding va_def [symmetric] ao_def [symmetric]
    by (rule refl)
  with assms(1) have
    "r' = setGroupSet r t (AList.update (groupNameOf pn)
            (gr\<lparr>versionedAPIs := AList.update v
                 (va\<lparr>apiObjects := AList.update (Kind pn) ao (apiObjects va)\<rparr>) (versionedAPIs gr)\<rparr>) gs)"
    by (cases "map_of (apiObjects va) (Kind pn)") auto
  then show ?thesis
    using gsf gr' by (simp add: noMixinNames_setGroupSet [OF assms(2)] map_snd_update)
qed

lemma addProperties_fixed:
  assumes "addProperties E pth a ps props = Inr props'"
    and "map (\<lambda>kp. (fst kp, eraseProperty (snd kp))) props = props"
  shows "map (\<lambda>kp. (fst kp, eraseProperty (snd kp))) props' = props'"
  using assms
proof (induction E pth a ps props rule: addProperties.induct)
  case (1 E pth a props)
  then show ?case by simp
next
  case (2 E pth a propName pr rest props)
  have m: "eraseProperty (newPropertyMethod propName pth pr a) = newPropertyMethod propName pth pr a"
    by (simp add: eraseProperty_def newPropertyMethod_def)
  have t: "\<And>n. eraseProperty (newPropertyTypeAlias n pth pr a) = newPropertyTypeAlias n pth pr a"
    by (simp add: eraseProperty_def newPropertyTypeAlias_def)
  from "2.prems" "2.IH" m t show ?case
    by (auto simp: Let_def map_snd_update split: if_splits)
qed

lemma addDefinition_noMixinNames:
  assumes "addDefinition E r pth def = Inr r'" and "noMixinNames r"
  shows "noMixinNames r'"
proof (cases "Version (Parse E pth) = None")
  case True
  with assms show ?thesis by (simp add: addDefinition_def)
next
  case False
  with assms(1) obtain r1 a props where
    c: "createAPIObject E r (Parse E pth) def = Inr (r1, a)"
    and p: "addProperties E pth a (Properties def) [] = Inr props"
    and r': "r' = updObject a (\<lambda>ao. ao\<lparr>properties := props\<rparr>) r1"
    by (auto simp: addDefinition_def Let_def split: sum.splits)
  have n1: "noMixinNames r1" by (rule createAPIObject_noMixinNames [OF c assms(2)])
  have pf: "map (\<lambda>kp. (fst kp, eraseProperty (snd kp))) props = props"
    by (rule addProperties_fixed [OF p]) simp
  have "\<And>ao. eraseObject (ao\<lparr>properties := props\<rparr>) = (eraseObject ao)\<lparr>properties := props\<rparr>"
    by (simp add: eraseObject_def pf)
  from withoutMixinNames_updObject_commute [where f = "\<lambda>ao. ao\<lparr>properties := props\<rparr>", OF this, of a r1]
  show ?thesis using n1 by (simp add: r' noMixinNames_def)
qed

lemma addDefinitions_noMixinNames:
  "addDefinitions E r ds = Inr r' \<Longrightarrow> noMixinNames r \<Longrightarrow> noMixinNames r'"
proof (induction ds arbitrary: r)
  case Nil
  then show ?case by simp
next
  case (Cons d ds)
  obtain n def where d: "d = (n, def)" by (cases d) auto
  from Cons.prems(1) d obtain r1 where a: "addDefinition E r n def = Inr r1"
    and b: "addDefinitions E r1 ds = Inr r'"
    by (auto split: sum.splits)
  from Cons.IH [OF b addDefinition_noMixinNames [OF a Cons.prems(2)]] show ?case .
qed

lemma newRoot_noMixinNames:
  assumes "newRoot E sp libSHA kSHA = Inr r"
  shows "noMixinNames r"
  by (rule addDefinitions_noMixinNames [OF assms [unfolded newRoot_def]])
     (simp add: noMixinNames_def withoutMixinNames_def)

text \<open>
  C1. The field \<^verbatim>\<open>parentMixinName\<close> of a property is empty in every tree that
  \<^verbatim>\<open>newRoot\<close> builds. \<^verbatim>\<open>property.accept\<close> creates every \<^verbatim>\<open>refMixinAPIObject\<close> with the
  empty qualifier, so the assignment in \<^verbatim>\<open>refMixinAPIObject.accept\<close> stores the empty
  qualifier over the empty field. An expansion that returns, started at a property or at
  a reference with the empty qualifier, therefore leaves every field of every property
  and every object as it was, and so does the whole traversal, however often an object is
  expanded. The \<^verbatim>\<open>emit\<close> methods hand the qualifier on as an argument and only read the
  tree.
\<close>

theorem expansion_leaves_tree_unchanged:
  "(newRoot E sp libSHA kSHA = Inr r \<longrightarrow> noMixinNames r)
   \<and> (noMixinNames (tree st) \<and> property_accept n E pa st = Some (Inr st') \<longrightarrow>
      tree st' = tree st)
   \<and> (noMixinNames (tree st) \<and> rm_parentMixinName rmao = []
       \<and> refMixinAPIObject_accept n E rmao st = Some (Inr st') \<longrightarrow> tree st' = tree st)
   \<and> (newRoot E sp libSHA kSHA = Inr r
       \<and> root_accept n E (newEmitVisitor r iw) = Some (Inr st') \<longrightarrow> tree st' = r)"
proof (intro conjI impI)
  assume "newRoot E sp libSHA kSHA = Inr r"
  then show "noMixinNames r" by (rule newRoot_noMixinNames)
next
  assume a: "noMixinNames (tree st) \<and> property_accept n E pa st = Some (Inr st')"
  then have "property_accept n E pa st = Some (Inr st')" by simp
  from accept_relates_trees(1)
         [where Q = "\<lambda>a b. noMixinNames a \<longrightarrow> b = a" and ok = "\<lambda>q. q = []", OF _ _ _ _ this]
  have "noMixinNames (tree st) \<longrightarrow> tree st' = tree st"
    by (simp add: noMixinNames_updProperty_empty)
  with a show "tree st' = tree st" by simp
next
  assume a: "noMixinNames (tree st) \<and> rm_parentMixinName rmao = []
             \<and> refMixinAPIObject_accept n E rmao st = Some (Inr st')"
  then have "refMixinAPIObject_accept n E rmao st = Some (Inr st')" by simp
  from accept_relates_trees(2)
         [where Q = "\<lambda>a b. noMixinNames a \<longrightarrow> b = a" and ok = "\<lambda>q. q = []", OF _ _ _ _ this]
       a
  have "noMixinNames (tree st) \<longrightarrow> tree st' = tree st"
    by (simp add: noMixinNames_updProperty_empty)
  with a show "tree st' = tree st" by simp
next
  assume a: "newRoot E sp libSHA kSHA = Inr r
             \<and> root_accept n E (newEmitVisitor r iw) = Some (Inr st')"
  then have n: "noMixinNames r" using newRoot_noMixinNames by blast
  from a have "root_accept n E (newEmitVisitor r iw) = Some (Inr st')" by simp
  from accept_layers_relate_trees(4)
         [where Q = "\<lambda>a b. noMixinNames a \<longrightarrow> b = a" and ok = "\<lambda>q. q = []", OF _ _ _ _ this]
  have "noMixinNames (tree (newEmitVisitor r iw)) \<longrightarrow> tree st' = tree (newEmitVisitor r iw)"
    by (simp add: noMixinNames_updProperty_empty)
  with n show "tree st' = r" by (simp add: newEmitVisitor_def)
qed

lemma demoRoot_built: "newRoot demoEnv demoSpec None None = Inr demoRoot"
proof -
  have "case newRoot demoEnv demoSpec None None of Inl _ \<Rightarrow> False | Inr _ \<Rightarrow> True"
    by code_simp
  then show ?thesis by (auto simp: demoRoot_def split: sum.splits)
qed

theorem expansion_leaves_tree_unchanged_witness:
  "noMixinNames demoRoot
   \<and> treeAfter (property_accept 3 demoEnv podSpecProperty
        (newEmitVisitor demoRoot newIndentWriter)) = Some demoRoot
   \<and> treeAfter (refMixinAPIObject_accept 2 demoEnv demoRmao
        (newEmitVisitor demoRoot newIndentWriter)) = Some demoRoot
   \<and> treeAfter (root_accept 3 demoEnv (newEmitVisitor demoRoot newIndentWriter)) = Some demoRoot"
proof -
  have "case property_accept 3 demoEnv podSpecProperty
               (newEmitVisitor demoRoot newIndentWriter) of
          Some (Inr _) \<Rightarrow> True | _ \<Rightarrow> False"
    by code_simp
  then obtain s1 where
    s1: "property_accept 3 demoEnv podSpecProperty (newEmitVisitor demoRoot newIndentWriter)
         = Some (Inr s1)"
    by (auto split: option.splits sum.splits)
  have "case refMixinAPIObject_accept 2 demoEnv demoRmao
               (newEmitVisitor demoRoot newIndentWriter) of
          Some (Inr _) \<Rightarrow> True | _ \<Rightarrow> False"
    by code_simp
  then obtain s2 where
    s2: "refMixinAPIObject_accept 2 demoEnv demoRmao (newEmitVisitor demoRoot newIndentWriter)
         = Some (Inr s2)"
    by (auto split: option.splits sum.splits)
  have "case root_accept 3 demoEnv (newEmitVisitor demoRoot newIndentWriter) of
          Some (Inr _) \<Rightarrow> True | _ \<Rightarrow> False"
    by code_simp
  then obtain s3 where
    s3: "root_accept 3 demoEnv (newEmitVisitor demoRoot newIndentWriter) = Some (Inr s3)"
    by (auto split: option.splits sum.splits)
  have t: "tree (newEmitVisitor demoRoot newIndentWriter) = demoRoot"
    by (simp add: newEmitVisitor_def)
  have q: "rm_parentMixinName demoRmao = []"
    by (simp add: demoRmao_def)
  note e = expansion_leaves_tree_unchanged
             [where E = demoEnv and sp = demoSpec and libSHA = None and kSHA = None
                and r = demoRoot and st = "newEmitVisitor demoRoot newIndentWriter"
                and pa = podSpecProperty and rmao = demoRmao and iw = newIndentWriter]
  from e [where n = 3 and st' = s1] demoRoot_built s1 t
  have a: "noMixinNames demoRoot" and b: "tree s1 = demoRoot"
    by simp_all
  from e [where n = 2 and st' = s2] a q s2 t
  have c: "tree s2 = demoRoot"
    by simp
  from e [where n = 3 and st' = s3] demoRoot_built s3
  have d: "tree s3 = demoRoot"
    by simp
  from a b c d s1 s2 s3 show ?thesis
    by (simp add: treeAfter_def)
qed

subsection \<open>Definitions without a version\<close>

lemma carry_simps [simp]: "carry f (Inl e) = Inl e" "carry f (Inr st) = Inr (f st)"
  by (simp_all add: carry_def)

lemma groupSetOf_spec [simp]: "groupSetOf (r\<lparr>spec := s\<rparr>) t = groupSetOf r t"
  by (cases t) (simp_all add: groupSetOf_def)

lemma lookupGroup_spec [simp]: "lookupGroup (r\<lparr>spec := s\<rparr>) a = lookupGroup r a"
  by (simp add: lookupGroup_def)

lemma lookupVersioned_spec [simp]: "lookupVersioned (r\<lparr>spec := s\<rparr>) a = lookupVersioned r a"
  by (simp add: lookupVersioned_def)

lemma lookupObject_spec [simp]: "lookupObject (r\<lparr>spec := s\<rparr>) a = lookupObject r a"
  by (simp add: lookupObject_def)

lemma lookupProperty_spec [simp]: "lookupProperty (r\<lparr>spec := s\<rparr>) a = lookupProperty r a"
  by (simp add: lookupProperty_def)

lemma getAPIObjectHelper_spec [simp]:
  "getAPIObjectHelper E (r\<lparr>spec := s\<rparr>) pn h = getAPIObjectHelper E r pn h"
  by (cases h; cases "Version pn"; simp add: getAPIObjectHelper_def Let_def)

lemma getAPIObject_spec [simp]: "getAPIObject E (r\<lparr>spec := s\<rparr>) pn = getAPIObject E r pn"
  by (simp add: getAPIObject_def cong: sum.case_cong)

lemma setGroupSet_spec: "setGroupSet (r\<lparr>spec := s\<rparr>) t gs = (setGroupSet r t gs)\<lparr>spec := s\<rparr>"
  by (cases t) (simp_all add: setGroupSet_def)

lemma updProperty_spec:
  "updProperty a f (r\<lparr>spec := s\<rparr>) = (updProperty a f r)\<lparr>spec := s\<rparr>"
  by (simp add: updProperty_def updObject_def setGroupSet_spec split: prod.splits)

lemma respec_simps [simp]:
  "tree (respec s st) = (tree st)\<lparr>spec := s\<rparr>"
  "m (respec s st) = m st"
  "buffers (respec s st) = buffers st"
  "e_groups (respec s st) = e_groups st"
  "e_hiddenGroups (respec s st) = e_hiddenGroups st"
  "logged (respec s st) = logged st"
  "k8sVersionOf (respec s st) = Info_Version s"
  by (simp_all add: respec_def k8sVersionOf_def)

lemma respec_visitComments:
  "visitComments cs n (respec s st) = respec s (visitComments cs n st)"
  by (simp add: visitComments_def respec_def)

lemma respec_visitTypeAlias:
  "Info_Version s = k8sVersionOf st \<Longrightarrow>
   visitTypeAlias E pa (respec s st) = carry (respec s) (visitTypeAlias E pa st)"
  by (auto simp: visitTypeAlias_def Let_def respec_def k8sVersionOf_def
           split: option.splits sum.splits)

lemma respec_visitRefProperty:
  "Info_Version s = k8sVersionOf st \<Longrightarrow>
   visitRefProperty E pa (respec s st) = carry (respec s) (visitRefProperty E pa st)"
  by (auto simp: visitRefProperty_def Let_def respec_def k8sVersionOf_def split: option.splits)

lemma respec_visitProperty:
  "visitProperty pa (respec s st) = carry (respec s) (visitProperty pa st)"
  by (simp add: visitProperty_def respec_def)

lemma respec_visitRefMixinAPIObject:
  "Info_Version s = k8sVersionOf st \<Longrightarrow>
   visitRefMixinAPIObject E rmao (respec s st)
   = carry (respec s) (visitRefMixinAPIObject E rmao st)"
  by (auto simp: visitRefMixinAPIObject_def Let_def respec_def k8sVersionOf_def
           split: option.splits)

lemma respec_visitAPIObject:
  "Info_Version s = k8sVersionOf st \<Longrightarrow>
   visitAPIObject E a (respec s st) = carry (respec s) (visitAPIObject E a st)"
  by (auto simp: visitAPIObject_def Let_def respec_def k8sVersionOf_def
           split: option.splits sum.splits)

lemma respec_visitVersionedAPI:
  "visitVersionedAPI E a (respec s st) = carry (respec s) (visitVersionedAPI E a st)"
  by (auto simp: visitVersionedAPI_def Let_def respec_def split: option.splits sum.splits)

lemma respec_visitGroup:
  "Info_Version s = k8sVersionOf st \<Longrightarrow>
   visitGroup E ga h (respec s st) = carry (respec s) (visitGroup E ga h st)"
  by (auto simp: visitGroup_def Let_def respec_def k8sVersionOf_def
           split: option.splits sum.splits)

lemma respec_visitRoot:
  "Info_Version s = k8sVersionOf st \<Longrightarrow>
   visitRoot (respec s st) = carry (respec s) (visitRoot st)"
  by (auto simp: visitRoot_def Let_def respec_def k8sVersionOf_def
           split: option.splits sum.splits)

lemma accept_keeps_version:
  "property_accept n E pa st = Some (Inr st') \<Longrightarrow> k8sVersionOf st' = k8sVersionOf st"
  "refMixinAPIObject_loop n E rmao pms st = Some (Inr st') \<Longrightarrow> k8sVersionOf st' = k8sVersionOf st"
proof -
  have step: "\<And>a q r. True \<Longrightarrow> spec (updProperty a (\<lambda>pm. pm\<lparr>parentMixinName := q\<rparr>) r) = spec r"
    by (auto simp: updProperty_def updObject_def setGroupSet_def split: prod.splits treeId.splits)
  show "property_accept n E pa st = Some (Inr st') \<Longrightarrow> k8sVersionOf st' = k8sVersionOf st"
    using accept_relates_trees(1) [where Q = "\<lambda>a b. spec b = spec a" and ok = "\<lambda>q. True", OF _ _ step]
    by (simp add: k8sVersionOf_def)
  show "refMixinAPIObject_loop n E rmao pms st = Some (Inr st') \<Longrightarrow> k8sVersionOf st' = k8sVersionOf st"
    using accept_relates_trees(3) [where Q = "\<lambda>a b. spec b = spec a" and ok = "\<lambda>q. True", OF _ _ step]
    by (simp add: k8sVersionOf_def)
qed

lemma respec_tree_update:
  "respec s (st\<lparr>tree := updProperty a f (tree st)\<rparr>)
   = (respec s st)\<lparr>tree := updProperty a f (tree (respec s st))\<rparr>"
  by (simp add: respec_def updProperty_spec)

lemma accept_respec:
  "Info_Version s = k8sVersionOf st \<Longrightarrow>
     property_accept n E pa (respec s st)
     = map_option (carry (respec s)) (property_accept n E pa st)"
  "Info_Version s = k8sVersionOf st \<Longrightarrow>
     refMixinAPIObject_accept n E rmao (respec s st)
     = map_option (carry (respec s)) (refMixinAPIObject_accept n E rmao st)"
  "Info_Version s = k8sVersionOf st \<Longrightarrow>
     refMixinAPIObject_loop n E rmao pms (respec s st)
     = map_option (carry (respec s)) (refMixinAPIObject_loop n E rmao pms st)"
proof (induction n E pa st and n E rmao st and n E rmao pms st
       rule: property_accept_refMixinAPIObject_accept_refMixinAPIObject_loop.induct)
  case (1 E pa st)
  then show ?case by simp
next
  case (2 n E pa st)
  show ?case
  proof (cases "lookupProperty (tree st) pa")
    case None
    then show ?thesis by simp
  next
    case (Some p)
    show ?thesis
    proof (cases "kind p = typeAlias")
      case True
      with Some "2.prems" show ?thesis by (simp add: respec_visitTypeAlias)
    next
      case False
      define st1 where "st1 = visitComments (comments p) (propertyComments pa) st"
      have v1: "Info_Version s = k8sVersionOf st1"
        using "2.prems" by (simp add: st1_def k8sVersionOf_def)
      have r1: "visitComments (comments p) (propertyComments pa) (respec s st) = respec s st1"
        by (simp add: st1_def respec_visitComments)
      show ?thesis
      proof (cases "isMixinRef E (ref p)")
        case True
        show ?thesis
        proof (cases "ref p")
          case None
          with Some False True show ?thesis by (simp add: Let_def)
        next
          case rf: (Some rf)
          show ?thesis
          proof (cases "getAPIObject E (tree st1) (Parse E (Name E rf))")
            case (Inl e)
            with Some False True rf show ?thesis
              by (simp add: Let_def r1 st1_def [symmetric] del: refMixinAPIObject_accept.simps)
          next
            case (Inr oa)
            show ?thesis
            proof (cases "lookupObject (tree st1) oa")
              case None
              with Some False True rf Inr show ?thesis
                by (simp add: Let_def r1 st1_def [symmetric] del: refMixinAPIObject_accept.simps)
            next
              case ao: (Some ao)
              from "2.IH" [OF Some False st1_def True rf Inr ao v1]
              show ?thesis
                using Some False True rf Inr ao
                by (simp add: Let_def r1 st1_def [symmetric] del: refMixinAPIObject_accept.simps)
            qed
          qed
        qed
      next
        case nomix: False
        with Some False v1 show ?thesis
          by (simp add: Let_def r1 st1_def [symmetric] respec_visitRefProperty respec_visitProperty)
      qed
    qed
  qed
next
  case (3 n E rmao st)
  show ?case
  proof (cases "lookupObject (tree st) (rm_addr rmao)")
    case None
    then show ?thesis by simp
  next
    case (Some ao)
    note ih = "3.IH" [OF Some "3.prems"]
    show ?thesis
    proof (cases "refMixinAPIObject_loop n E rmao
                    (sortAndFilterBlacklisted E (k8sVersionOf st) (properties ao)) st")
      case None
      with Some ih "3.prems" show ?thesis by simp
    next
      case res: (Some res)
      show ?thesis
      proof (cases res)
        case (Inl e)
        with Some ih "3.prems" res show ?thesis by simp
      next
        case (Inr st1)
        from accept_keeps_version(2) [OF res [unfolded Inr]] "3.prems"
        have "Info_Version s = k8sVersionOf st1" by simp
        with Some ih "3.prems" res Inr show ?thesis
          by (simp add: respec_visitRefMixinAPIObject)
      qed
    qed
  qed
next
  case (4 n E rmao st)
  then show ?case by simp
next
  case (5 n E rmao kp pms st)
  show ?case
  proof (cases "isSpecialProperty E (name (snd kp))")
    case True
    with "5.IH"(1) [OF True "5.prems"] show ?thesis by simp
  next
    case False
    define st0 where
      "st0 = st\<lparr>tree := updProperty (rm_addr rmao, fst kp)
                           (\<lambda>pm. pm\<lparr>parentMixinName := rm_parentMixinName rmao\<rparr>) (tree st)\<rparr>"
    have v0: "Info_Version s = k8sVersionOf st0"
      using "5.prems"
      by (auto simp: st0_def k8sVersionOf_def updProperty_def updObject_def setGroupSet_def
               split: prod.splits treeId.splits)
    have r0: "(respec s st)\<lparr>tree := updProperty (rm_addr rmao, fst kp)
                 (\<lambda>pm. pm\<lparr>parentMixinName := rm_parentMixinName rmao\<rparr>) ((tree st)\<lparr>spec := s\<rparr>)\<rparr>
              = respec s st0"
      by (simp add: st0_def respec_def updProperty_spec)
    note ih2 = "5.IH"(2) [OF False v0 [unfolded st0_def], folded st0_def]
    show ?thesis
    proof (cases "property_accept n E (rm_addr rmao, fst kp) st0")
      case None
      with False ih2 show ?thesis
        by (simp add: r0 st0_def [symmetric])
    next
      case res: (Some res)
      show ?thesis
      proof (cases res)
        case (Inl e)
        with False ih2 res show ?thesis
          by (simp add: r0 st0_def [symmetric])
      next
        case (Inr st1)
        from accept_keeps_version(1) [OF res [unfolded Inr]] v0
        have v1: "Info_Version s = k8sVersionOf st1" by simp
        from "5.IH"(3) [OF False res [unfolded st0_def] Inr v1]
        show ?thesis
          using False ih2 res Inr
          by (simp add: r0 st0_def [symmetric])
      qed
    qed
  qed
qed

lemma spec_updProperty:
  "spec (updProperty a (\<lambda>pm. pm\<lparr>parentMixinName := q\<rparr>) r) = spec r"
  by (auto simp: updProperty_def updObject_def setGroupSet_def split: prod.splits treeId.splits)

lemma layers_keep_version:
  "apiObject_accept n E oa st = Some (Inr st') \<Longrightarrow> k8sVersionOf st' = k8sVersionOf st"
  "versionedAPI_accept n E va st = Some (Inr st') \<Longrightarrow> k8sVersionOf st' = k8sVersionOf st"
  "group_accept n E ga h st = Some (Inr st') \<Longrightarrow> k8sVersionOf st' = k8sVersionOf st"
  using accept_layers_relate_trees(1-3)
          [where Q = "\<lambda>a b. spec b = spec a" and ok = "\<lambda>q. True" and st = st and st' = st']
  by (simp_all add: k8sVersionOf_def spec_updProperty)

lemma forEach_keeps_version:
  assumes "\<And>x s s'. f x s = Some (Inr s') \<Longrightarrow> k8sVersionOf s' = k8sVersionOf s"
  shows "forEach f xs st = Some (Inr st') \<Longrightarrow> k8sVersionOf st' = k8sVersionOf st"
proof (induction xs arbitrary: st)
  case Nil
  then show ?case by simp
next
  case (Cons x xs)
  from Cons.prems obtain s1 where a: "f x st = Some (Inr s1)"
    and b: "forEach f xs s1 = Some (Inr st')"
    by (auto split: option.splits sum.splits)
  from Cons.IH [OF b] assms [OF a] show ?case by simp
qed

lemma forEach_respec:
  assumes f: "\<And>x st. Info_Version s = k8sVersionOf st \<Longrightarrow>
                 f x (respec s st) = map_option (carry (respec s)) (f x st)"
    and k: "\<And>x st st'. f x st = Some (Inr st') \<Longrightarrow> k8sVersionOf st' = k8sVersionOf st"
  shows "Info_Version s = k8sVersionOf st \<Longrightarrow>
           forEach f xs (respec s st) = map_option (carry (respec s)) (forEach f xs st)"
proof (induction xs arbitrary: st)
  case Nil
  then show ?case by simp
next
  case (Cons x xs)
  show ?case
  proof (cases "f x st")
    case None
    with f [OF Cons.prems, of x] show ?thesis by simp
  next
    case (Some res)
    show ?thesis
    proof (cases res)
      case (Inl e)
      with Some f [OF Cons.prems, of x] show ?thesis by simp
    next
      case (Inr st1)
      from k [OF Some [unfolded Inr]] Cons.prems have "Info_Version s = k8sVersionOf st1" by simp
      from Cons.IH [OF this] Some Inr f [OF Cons.prems, of x] show ?thesis by simp
    qed
  qed
qed

lemma apiObject_accept_respec:
  assumes "Info_Version s = k8sVersionOf st"
  shows "apiObject_accept n E a (respec s st)
         = map_option (carry (respec s)) (apiObject_accept n E a st)"
proof (cases "lookupObject (tree st) a")
  case None
  then show ?thesis by (simp add: apiObject_accept_def)
next
  case (Some ao)
  define st1 where "st1 = visitComments (ao_comments ao) (objectComments a) st"
  define f where "f = (\<lambda>kp :: string \<times> property. property_accept n E (a, fst kp))"
  have v1: "Info_Version s = k8sVersionOf st1"
    using assms by (simp add: st1_def k8sVersionOf_def)
  have k: "k8sVersionOf t' = k8sVersionOf t" if "f x t = Some (Inr t')" for x t t'
    using that unfolding f_def by (rule accept_keeps_version(1))
  have c: "f x (respec s t) = map_option (carry (respec s)) (f x t)"
    if "Info_Version s = k8sVersionOf t" for x t
    using that unfolding f_def by (rule accept_respec(1))
  have fe: "forEach f xs (respec s st1) = map_option (carry (respec s)) (forEach f xs st1)" for xs
    using c k v1 by (rule forEach_respec)
  show ?thesis
  proof (cases "forEach f (sortAndFilterBlacklisted E (k8sVersionOf st) (properties ao)) st1")
    case None
    with Some fe assms show ?thesis
      by (simp add: apiObject_accept_def respec_visitComments st1_def [symmetric]
            f_def [symmetric])
  next
    case res: (Some res)
    show ?thesis
    proof (cases res)
      case (Inl e)
      with Some fe assms res show ?thesis
        by (simp add: apiObject_accept_def respec_visitComments st1_def [symmetric]
              f_def [symmetric])
    next
      case (Inr st2)
      have "k8sVersionOf st2 = k8sVersionOf st1"
        using k res [unfolded Inr] by (rule forEach_keeps_version)
      with v1 have "Info_Version s = k8sVersionOf st2" by simp
      with Some fe assms res Inr show ?thesis
        by (simp add: apiObject_accept_def respec_visitComments st1_def [symmetric]
              f_def [symmetric] respec_visitAPIObject)
    qed
  qed
qed

lemma versionedAPI_accept_respec:
  assumes "Info_Version s = k8sVersionOf st"
  shows "versionedAPI_accept n E a (respec s st)
         = map_option (carry (respec s)) (versionedAPI_accept n E a st)"
proof (cases "lookupVersioned (tree st) a")
  case None
  then show ?thesis by (simp add: versionedAPI_accept_def)
next
  case (Some va)
  define f where
    "f = (\<lambda>ko :: string \<times> apiObject.
            apiObject_accept n E (fst a, fst (snd a), snd (snd a), fst ko))"
  have k: "k8sVersionOf t' = k8sVersionOf t" if "f x t = Some (Inr t')" for x t t'
    using that unfolding f_def by (rule layers_keep_version(1))
  have c: "f x (respec s t) = map_option (carry (respec s)) (f x t)"
    if "Info_Version s = k8sVersionOf t" for x t
    using that unfolding f_def by (rule apiObject_accept_respec)
  have fe: "forEach f xs (respec s st) = map_option (carry (respec s)) (forEach f xs st)" for xs
    using c k assms by (rule forEach_respec)
  show ?thesis
  proof (cases "forEach f (apiObjectSet_toSortedSlice (apiObjects va)) st")
    case None
    with Some fe show ?thesis by (simp add: versionedAPI_accept_def f_def [symmetric])
  next
    case res: (Some res)
    show ?thesis
    proof (cases res)
      case (Inl e)
      with Some fe res show ?thesis by (simp add: versionedAPI_accept_def f_def [symmetric])
    next
      case (Inr st2)
      with Some fe res show ?thesis
        by (simp add: versionedAPI_accept_def f_def [symmetric] respec_visitVersionedAPI)
    qed
  qed
qed

lemma group_accept_respec:
  assumes "Info_Version s = k8sVersionOf st"
  shows "group_accept n E a h (respec s st)
         = map_option (carry (respec s)) (group_accept n E a h st)"
proof (cases "lookupGroup (tree st) a")
  case None
  then show ?thesis by (simp add: group_accept_def)
next
  case (Some gr)
  define f where
    "f = (\<lambda>kv :: string \<times> versionedAPI. versionedAPI_accept n E (fst a, snd a, fst kv))"
  have k: "k8sVersionOf t' = k8sVersionOf t" if "f x t = Some (Inr t')" for x t t'
    using that unfolding f_def by (rule layers_keep_version(2))
  have c: "f x (respec s t) = map_option (carry (respec s)) (f x t)"
    if "Info_Version s = k8sVersionOf t" for x t
    using that unfolding f_def by (rule versionedAPI_accept_respec)
  have fe: "forEach f xs (respec s st) = map_option (carry (respec s)) (forEach f xs st)" for xs
    using c k assms by (rule forEach_respec)
  show ?thesis
  proof (cases "forEach f (versionedAPISet_toSortedSlice (versionedAPIs gr)) st")
    case None
    with Some fe show ?thesis by (simp add: group_accept_def f_def [symmetric])
  next
    case res: (Some res)
    show ?thesis
    proof (cases res)
      case (Inl e)
      with Some fe res show ?thesis by (simp add: group_accept_def f_def [symmetric])
    next
      case (Inr st2)
      have "k8sVersionOf st2 = k8sVersionOf st"
        using k res [unfolded Inr] by (rule forEach_keeps_version)
      with assms have "Info_Version s = k8sVersionOf st2" by simp
      with Some fe res Inr show ?thesis
        by (simp add: group_accept_def f_def [symmetric] respec_visitGroup)
    qed
  qed
qed

lemma root_accept_respec:
  assumes "Info_Version s = k8sVersionOf st"
  shows "root_accept n E (respec s st) = map_option (carry (respec s)) (root_accept n E st)"
proof -
  define f where
    "f = (\<lambda>t h (kg :: string \<times> group). group_accept n E (t, fst kg) h)"
  have k: "k8sVersionOf u' = k8sVersionOf u" if "f t h x u = Some (Inr u')" for t h x u u'
    using that unfolding f_def by (rule layers_keep_version(3))
  have c: "f t h x (respec s u) = map_option (carry (respec s)) (f t h x u)"
    if "Info_Version s = k8sVersionOf u" for t h x u
    using that unfolding f_def by (rule group_accept_respec)
  have fe: "forEach (f t h) xs (respec s u) = map_option (carry (respec s)) (forEach (f t h) xs u)"
    if "Info_Version s = k8sVersionOf u" for t h xs u
    using c k that by (rule forEach_respec)
  have r: "root_accept n E u =
             (case forEach (f visibleTree False) (groupSet_toSortedSlice (groups (tree u))) u of
                None \<Rightarrow> None
              | Some (Inl err) \<Rightarrow> Some (Inl err)
              | Some (Inr st1) \<Rightarrow>
                  (case forEach (f hiddenTree True)
                          (groupSet_toSortedSlice (hiddenGroups (tree st1))) st1 of
                     None \<Rightarrow> None
                   | Some (Inl err) \<Rightarrow> Some (Inl err)
                   | Some (Inr st2) \<Rightarrow> Some (visitRoot st2)))" for u
    unfolding root_accept_def f_def by (rule refl)
  show ?thesis
  proof (cases "forEach (f visibleTree False) (groupSet_toSortedSlice (groups (tree st))) st")
    case None
    with fe [OF assms] show ?thesis by (simp add: r)
  next
    case res: (Some res)
    show ?thesis
    proof (cases res)
      case (Inl e)
      with fe [OF assms] res show ?thesis by (simp add: r)
    next
      case (Inr st1)
      have "k8sVersionOf st1 = k8sVersionOf st"
        using k res [unfolded Inr] by (rule forEach_keeps_version)
      with assms have v1: "Info_Version s = k8sVersionOf st1" by simp
      show ?thesis
      proof (cases "forEach (f hiddenTree True)
                      (groupSet_toSortedSlice (hiddenGroups (tree st1))) st1")
        case None
        with fe [OF assms] fe [OF v1] res Inr show ?thesis by (simp add: r)
      next
        case res2: (Some res2)
        show ?thesis
        proof (cases res2)
          case (Inl e)
          with fe [OF assms] fe [OF v1] res Inr res2 show ?thesis by (simp add: r)
        next
          case st2: (Inr st2)
          have "k8sVersionOf st2 = k8sVersionOf st1"
            using k res2 [unfolded st2] by (rule forEach_keeps_version)
          with v1 have "Info_Version s = k8sVersionOf st2" by simp
          with fe [OF assms] fe [OF v1] res Inr res2 st2 show ?thesis
            by (simp add: r respec_visitRoot)
        qed
      qed
    qed
  qed
qed

lemma withSpec_simps [simp]:
  "withSpec s (Inl e) = Inl e" "withSpec s (Inr r) = Inr (r\<lparr>spec := s\<rparr>)"
  by (simp_all add: withSpec_def)

lemma updObject_spec: "updObject a f (r\<lparr>spec := s\<rparr>) = (updObject a f r)\<lparr>spec := s\<rparr>"
  by (simp add: updObject_def setGroupSet_spec split: prod.splits)

lemma createAPIObject_spec:
  "createAPIObject E (r\<lparr>spec := s\<rparr>) pn def =
     (case createAPIObject E r pn def of
        Inl e \<Rightarrow> Inl e
      | Inr ra \<Rightarrow> Inr ((fst ra)\<lparr>spec := s\<rparr>, snd ra))"
proof (cases "Version pn")
  case None
  then show ?thesis by (simp add: createAPIObject_def)
next
  case (Some v)
  define t where "t = (if 0 < length (TopLevelSpecs def) then visibleTree else hiddenTree)"
  define gs where "gs = groupSetOf r t"
  define qn where "qn = (case TopLevelSpecs def of [] \<Rightarrow> groupNameOf pn
            | s # x \<Rightarrow> if TopLevelSpec_Group s \<noteq> [] then TopLevelSpec_Group s else groupNameOf pn)"
  define gr where "gr = (case map_of gs (groupNameOf pn) of
                           None \<Rightarrow> newGroup (groupNameOf pn) qn | Some g \<Rightarrow> g)"
  define va where "va = (case map_of (versionedAPIs gr) v of
                           None \<Rightarrow> newVersionedAPI v (t, groupNameOf pn) | Some x \<Rightarrow> x)"
  define ao where "ao = newAPIObject pn (t, groupNameOf pn, v) def"
  have e: "createAPIObject E r' pn def =
          (case map_of (apiObjects va) (Kind pn) of
             Some _ \<Rightarrow> Inl (Panic (''Duplicate object kinds with name '' @ sq @ Unparse E pn @ sq))
           | None \<Rightarrow>
               Inr (setGroupSet r' t (AList.update (groupNameOf pn)
                      (gr\<lparr>versionedAPIs := AList.update v
                         (va\<lparr>apiObjects := AList.update (Kind pn) ao (apiObjects va)\<rparr>)
                         (versionedAPIs gr)\<rparr>) gs),
                    (t, groupNameOf pn, v, Kind pn)))"
    if "groupSetOf r' t = gs" for r'
    unfolding createAPIObject_def Let_def Some option.case
    unfolding t_def [symmetric]
    unfolding that qn_def [symmetric]
    unfolding gr_def [symmetric]
    unfolding va_def [symmetric] ao_def [symmetric]
    by (rule refl)
  show ?thesis
    by (cases "map_of (apiObjects va) (Kind pn)")
       (simp_all add: e [of r, OF gs_def [symmetric]] e [of "r\<lparr>spec := s\<rparr>"] gs_def
          setGroupSet_spec)
qed

lemma addDefinition_spec:
  "addDefinition E (r\<lparr>spec := s\<rparr>) pth def = withSpec s (addDefinition E r pth def)"
proof (cases "Version (Parse E pth) = None")
  case True
  then show ?thesis by (simp add: addDefinition_def Let_def)
next
  case False
  then obtain v where v: "Version (Parse E pth) = Some v" by auto
  show ?thesis
  proof (cases "createAPIObject E r (Parse E pth) def")
    case (Inl e)
    with v show ?thesis by (simp add: addDefinition_def Let_def createAPIObject_spec)
  next
    case (Inr ra)
    obtain r1 a where ra: "ra = (r1, a)" by (cases ra) auto
    show ?thesis
      using v Inr ra
      by (cases "addProperties E pth a (Properties def) []")
         (simp_all add: addDefinition_def Let_def createAPIObject_spec updObject_spec)
  qed
qed

lemma addDefinitions_spec:
  "addDefinitions E (r\<lparr>spec := s\<rparr>) ds = withSpec s (addDefinitions E r ds)"
proof (induction ds arbitrary: r)
  case Nil
  then show ?case by simp
next
  case (Cons d ds)
  obtain n def where d: "d = (n, def)" by (cases d) auto
  show ?case
    by (cases "addDefinition E r n def") (simp_all add: d addDefinition_spec Cons.IH)
qed

lemma addDefinitions_keeps_spec:
  "addDefinitions E r ds = Inr r' \<Longrightarrow> spec r' = spec r"
proof -
  assume a: "addDefinitions E r ds = Inr r'"
  from addDefinitions_spec [where E = E and r = r and s = "spec r" and ds = ds] a
  have "addDefinitions E r ds = Inr (r'\<lparr>spec := spec r\<rparr>)" by simp
  with a have "r' = r'\<lparr>spec := spec r\<rparr>" by simp
  then have "spec r' = spec (r'\<lparr>spec := spec r\<rparr>)" by simp
  then show ?thesis by simp
qed

lemma Emit_ignores_unversioned_definition:
  assumes "Version (Parse E pth) = None"
    and "Definitions sp = ds1 @ (pth, def) # ds2"
  shows "Emit n E sp libSHA kSHA = Emit n E (sp\<lparr>Definitions := ds1 @ ds2\<rparr>) libSHA kSHA"
proof -
  define sp' where "sp' = sp\<lparr>Definitions := ds1 @ ds2\<rparr>"
  have skip: "addDefinitions E r (ds1 @ (pth, def) # ds2) = addDefinitions E r (ds1 @ ds2)" for r
    using assms(1) by (auto simp: addDefinition_def addDefinitions_append split: sum.splits)
  have n1: "newRoot E sp libSHA kSHA = addDefinitions E (emptyRoot sp libSHA kSHA) (ds1 @ ds2)"
    by (simp add: newRoot_def emptyRoot_def assms(2) skip)
  have e: "emptyRoot sp' libSHA kSHA = (emptyRoot sp libSHA kSHA)\<lparr>spec := sp'\<rparr>"
    by (simp add: emptyRoot_def)
  have "newRoot E sp' libSHA kSHA = addDefinitions E (emptyRoot sp' libSHA kSHA) (ds1 @ ds2)"
    by (simp add: newRoot_def emptyRoot_def sp'_def)
  also have "\<dots> = withSpec sp' (addDefinitions E (emptyRoot sp libSHA kSHA) (ds1 @ ds2))"
    unfolding e by (rule addDefinitions_spec)
  finally have n2: "newRoot E sp' libSHA kSHA = withSpec sp' (newRoot E sp libSHA kSHA)"
    by (simp add: n1)
  have iv: "Info_Version sp' = Info_Version sp" by (simp add: sp'_def)
  show ?thesis
  proof (cases "newRoot E sp libSHA kSHA")
    case (Inl e)
    with n2 show ?thesis by (simp add: Emit_def sp'_def [symmetric])
  next
    case (Inr r)
    from Inr have "spec r = sp"
      by (auto simp: newRoot_def dest: addDefinitions_keeps_spec)
    then have v: "Info_Version sp' = k8sVersionOf (newEmitVisitor r newIndentWriter)"
      by (simp add: iv k8sVersionOf_def newEmitVisitor_def)
    have "newEmitVisitor (r\<lparr>spec := sp'\<rparr>) newIndentWriter
          = respec sp' (newEmitVisitor r newIndentWriter)"
      by (simp add: newEmitVisitor_def respec_def)
    with root_accept_respec [OF v, of n E]
    have ra: "root_accept n E (newEmitVisitor (r\<lparr>spec := sp'\<rparr>) newIndentWriter)
              = map_option (carry (respec sp')) (root_accept n E (newEmitVisitor r newIndentWriter))"
      by simp
    show ?thesis
    proof (cases "root_accept n E (newEmitVisitor r newIndentWriter)")
      case None
      with Inr n2 ra show ?thesis by (simp add: Emit_def sp'_def [symmetric])
    next
      case (Some res)
      with Inr n2 ra show ?thesis
        by (cases res) (simp_all add: Emit_def sp'_def [symmetric] iv cong: sum.case_cong)
    qed
  qed
qed

text \<open>
  C7. A definition whose path carries no version leaves the tree as it is and raises no
  error, so the tree built from a list of definitions is the tree built from the list
  without it; and \<^verbatim>\<open>Emit\<close> on a specification that holds such a definition ends as
  \<^verbatim>\<open>Emit\<close> on the specification without it, with the same documents where it returns.
\<close>

theorem unversioned_definition_is_skipped:
  assumes "Version (Parse E pth) = None"
  shows "addDefinition E r pth def = Inr r
       \<and> addDefinitions E r (ds1 @ (pth, def) # ds2) = addDefinitions E r (ds1 @ ds2)
       \<and> (Definitions sp = ds1 @ (pth, def) # ds2 \<longrightarrow>
            Emit n E sp libSHA kSHA = Emit n E (sp\<lparr>Definitions := ds1 @ ds2\<rparr>) libSHA kSHA)"
  using assms Emit_ignores_unversioned_definition [OF assms]
  by (auto simp: addDefinition_def addDefinitions_append split: sum.splits)

theorem unversioned_definition_is_skipped_witness:
  "Version (Parse demoEnv ''IntOrString'') = None
   \<and> addDefinition demoEnv demoRoot ''IntOrString'' podDef = Inr demoRoot
   \<and> Emit 3 demoEnv demoSpec None None
       = Emit 3 demoEnv (demoSpec\<lparr>Definitions := take 1 (Definitions demoSpec)
                                                  @ drop 2 (Definitions demoSpec)\<rparr>) None None"
proof -
  have v: "Version (Parse demoEnv ''IntOrString'') = None"
    by code_simp
  have d: "Definitions demoSpec
           = take 1 (Definitions demoSpec)
             @ (''IntOrString'',
                \<lparr>Description = ''no version'', Properties = [], TopLevelSpecs = []\<rparr>)
             # drop 2 (Definitions demoSpec)"
    by (simp add: demoSpec_def)
  from unversioned_definition_is_skipped [OF v, of demoRoot podDef] v
    unversioned_definition_is_skipped
      [OF v, of demoRoot
         "\<lparr>Description = ''no version'', Properties = [], TopLevelSpecs = []\<rparr>"
         "take 1 (Definitions demoSpec)" "drop 2 (Definitions demoSpec)" demoSpec
         3 None None] d
  show ?thesis by blast
qed

end
